theory Spec2Isabelle
  imports Main
begin

section \<open>Python values, exceptions and strings\<close>

text \<open>
  The program is one Python module, \<^verbatim>\<open>main_local.py\<close>: a navigator
  (\<^verbatim>\<open>get_tse_details_html\<close>) that drives a three-request form dialogue over a
  \<^verbatim>\<open>requests.Session\<close>, a facade (\<^verbatim>\<open>check_fallecido\<close>) that reads one
  element out of the last page, and a Flask route (\<^verbatim>\<open>check_cedula\<close>).

  A dictionary literal is an association list in the order it is written.
  Progress messages printed to standard output are not part of the model (printing is
  taken to succeed), nor are \<^verbatim>\<open>parse_details_from_html\<close> and the root route,
  which nothing here calls.
\<close>

datatype pyval = PyBool bool | PyStr string

type_synonym pydict = "(string \<times> pyval) list"

text \<open>
  The exceptions that can arise under the facade. All of them derive from Python's
  \<^verbatim>\<open>Exception\<close>; \<^verbatim>\<open>HTTPError\<close> is a subclass of
  \<^verbatim>\<open>RequestException\<close>. Each carries what \<^verbatim>\<open>str(e)\<close> needs.
\<close>

datatype exn =
    RequestException string
  | HTTPError string
  | KeyError string
  | Exception string

text \<open>\<^verbatim>\<open>str(e)\<close>: the message; for a \<^verbatim>\<open>KeyError\<close> the quoted key.\<close>

fun str_exn :: "exn \<Rightarrow> string" where
  "str_exn (RequestException m) = m"
| "str_exn (HTTPError m) = m"
| "str_exn (KeyError k) = [CHR 0x27] @ k @ [CHR 0x27]"
| "str_exn (Exception m) = m"

text \<open>
  A Python \<^verbatim>\<open>str\<close> is held as its UTF-8 encoding, which keeps equality and
  concatenation as they are. \<open>code_points\<close> splits a string into the encodings of its
  code points: the first byte of an encoding tells its length.
\<close>

definition utf8_len :: "char \<Rightarrow> nat" where
  "utf8_len c =
     (if (of_char c :: nat) < 0xC0 then 1
      else if (of_char c :: nat) < 0xE0 then 2
      else if (of_char c :: nat) < 0xF0 then 3
      else 4)"

fun code_points :: "string \<Rightarrow> string list" where
  "code_points [] = []"
| "code_points (c # cs) =
     (c # take (utf8_len c - 1) cs) # code_points (drop (utf8_len c - 1) cs)"

text \<open>The encoding of one code point: as many bytes as its first byte announces.\<close>

definition well_formed :: "string \<Rightarrow> bool" where
  "well_formed cp \<longleftrightarrow> cp \<noteq> [] \<and> length cp = utf8_len (hd cp)"

text \<open>
  \<^verbatim>\<open>str.strip()\<close> removes leading and trailing whitespace code points. These are
  the 29 code points Python counts as whitespace, in UTF-8: U+0009 to U+000D, U+001C to
  U+001F, U+0020, U+0085, U+00A0, U+1680, U+2000 to U+200A, U+2028, U+2029, U+202F, U+205F
  and U+3000.
\<close>

definition python_whitespace :: "string list" where
  "python_whitespace =
     [[CHR 0x09], [CHR 0x0A], [CHR 0x0B], [CHR 0x0C], [CHR 0x0D],
      [CHR 0x1C], [CHR 0x1D], [CHR 0x1E], [CHR 0x1F], [CHR 0x20],
      [CHR 0xC2, CHR 0x85], [CHR 0xC2, CHR 0xA0],
      [CHR 0xE1, CHR 0x9A, CHR 0x80],
      [CHR 0xE2, CHR 0x80, CHR 0x80], [CHR 0xE2, CHR 0x80, CHR 0x81],
      [CHR 0xE2, CHR 0x80, CHR 0x82], [CHR 0xE2, CHR 0x80, CHR 0x83],
      [CHR 0xE2, CHR 0x80, CHR 0x84], [CHR 0xE2, CHR 0x80, CHR 0x85],
      [CHR 0xE2, CHR 0x80, CHR 0x86], [CHR 0xE2, CHR 0x80, CHR 0x87],
      [CHR 0xE2, CHR 0x80, CHR 0x88], [CHR 0xE2, CHR 0x80, CHR 0x89],
      [CHR 0xE2, CHR 0x80, CHR 0x8A],
      [CHR 0xE2, CHR 0x80, CHR 0xA8], [CHR 0xE2, CHR 0x80, CHR 0xA9],
      [CHR 0xE2, CHR 0x80, CHR 0xAF],
      [CHR 0xE2, CHR 0x81, CHR 0x9F],
      [CHR 0xE3, CHR 0x80, CHR 0x80]]"

definition isspace :: "string \<Rightarrow> bool" where
  "isspace cp \<longleftrightarrow> cp \<in> set python_whitespace"

definition strip :: "string \<Rightarrow> string" where
  "strip s = concat (rev (dropWhile isspace (rev (dropWhile isspace (code_points s)))))"

text \<open>
  \<^verbatim>\<open>str.upper()\<close> replaces each code point by its uppercase mapping, which may
  be several code points. On ASCII it turns \<^verbatim>\<open>a\<close> to \<^verbatim>\<open>z\<close> into
  \<^verbatim>\<open>A\<close> to \<^verbatim>\<open>Z\<close> and leaves the rest. The mapping of the code points
  outside ASCII is the Unicode table of the Python runtime, which is not part of the
  program: it is the parameter \<open>toupper\<close>, from the encoding of a code point to the
  encoding of its uppercase mapping.
\<close>

definition upper_char :: "char \<Rightarrow> char" where
  "upper_char c =
     (case map_of (zip ''abcdefghijklmnopqrstuvwxyz'' ''ABCDEFGHIJKLMNOPQRSTUVWXYZ'') c of
        Some u \<Rightarrow> u
      | None \<Rightarrow> c)"

definition upper_point :: "(string \<Rightarrow> string) \<Rightarrow> string \<Rightarrow> string" where
  "upper_point toupper cp =
     (case cp of
        [c] \<Rightarrow> if (of_char c :: nat) < 0x80 then [upper_char c] else toupper cp
      | _ \<Rightarrow> toupper cp)"

definition upper :: "(string \<Rightarrow> string) \<Rightarrow> string \<Rightarrow> string" where
  "upper toupper s = concat (map (upper_point toupper) (code_points s))"

text \<open>Decimal rendering of a status code inside an f-string.\<close>

definition digit :: "nat \<Rightarrow> char" where
  "digit d = ''0123456789'' ! d"

function show_nat :: "nat \<Rightarrow> string" where
  "show_nat n = (if n < 10 then [digit n] else show_nat (n div 10) @ [digit (n mod 10)])"
  by pat_completeness auto
termination
  by (relation "measure id") auto

section \<open>The parsed document (BeautifulSoup)\<close>

text \<open>
  A parsed page is a forest of nodes. \<open>Text\<close> is a string that \<^verbatim>\<open>get_text\<close>
  collects; \<open>Special\<close> is one it skips (a comment, a declaration, the content of a
  script or style element). A tag has a name, its attribute dictionary and children.
\<close>

datatype node =
    Text string
  | Special string
  | Tag string "(string \<times> string) list" "node list"

type_synonym soup = "node list"

datatype markup = Bytes string | Str string

text \<open>The node itself followed by its descendants, in document order.\<close>

fun preorder :: "node \<Rightarrow> node list" where
  "preorder (Text s) = [Text s]"
| "preorder (Special s) = [Special s]"
| "preorder (Tag n attrs cs) = Tag n attrs cs # concat (map preorder cs)"

definition descendants :: "node list \<Rightarrow> node list" where
  "descendants cs = concat (map preorder cs)"

text \<open>
  \<^verbatim>\<open>soup.find(name, attrs)\<close>: the first tag in document order with that name whose
  attributes hold every given value; \<^verbatim>\<open>None\<close> when there is none.
\<close>

fun matches :: "string \<Rightarrow> (string \<times> string) list \<Rightarrow> node \<Rightarrow> bool" where
  "matches name attrs (Tag n tag_attrs cs) \<longleftrightarrow>
     n = name \<and> list_all (\<lambda>(k, v). map_of tag_attrs k = Some v) attrs"
| "matches name attrs (Text s) \<longleftrightarrow> False"
| "matches name attrs (Special s) \<longleftrightarrow> False"

definition soup_find :: "string \<Rightarrow> (string \<times> string) list \<Rightarrow> soup \<Rightarrow> node option" where
  "soup_find name attrs soup = List.find (matches name attrs) (descendants soup)"

text \<open>\<^verbatim>\<open>tag[key]\<close>: the attribute, or \<^verbatim>\<open>KeyError(key)\<close>.\<close>

fun getitem :: "node \<Rightarrow> string \<Rightarrow> exn + string" where
  "getitem (Tag n tag_attrs cs) key =
     (case map_of tag_attrs key of None \<Rightarrow> Inl (KeyError key) | Some v \<Rightarrow> Inr v)"
| "getitem (Text s) key = Inl (KeyError key)"
| "getitem (Special s) key = Inl (KeyError key)"

text \<open>
  \<^verbatim>\<open>tag.get_text(strip=True)\<close>: every collected string below the tag, each one
  stripped, the empty ones dropped, joined with no separator.
\<close>

fun node_string :: "node \<Rightarrow> string option" where
  "node_string (Text s) = Some s"
| "node_string (Special s) = None"
| "node_string (Tag n attrs cs) = None"

fun children :: "node \<Rightarrow> node list" where
  "children (Tag n attrs cs) = cs"
| "children (Text s) = []"
| "children (Special s) = []"

definition get_text_strip :: "node \<Rightarrow> string" where
  "get_text_strip tag =
     concat (filter (\<lambda>s. s \<noteq> [])
       (map strip (List.map_filter node_string (descendants (children tag)))))"

text \<open>
  The normalisation as the specification words it, to compare with the program's: the
  text of the element, which is every collected string below the tag joined as it stands
  (\<^verbatim>\<open>tag.get_text()\<close>), trimmed as a whole, then uppercased.
\<close>

definition element_text :: "node \<Rightarrow> string" where
  "element_text tag = concat (List.map_filter node_string (descendants (children tag)))"

definition spec_normalized_text :: "(string \<Rightarrow> string) \<Rightarrow> node \<Rightarrow> string" where
  "spec_normalized_text toupper tag = upper toupper (strip (element_text tag))"

section \<open>HTTP through a session\<close>

datatype http_method = GET | POST

text \<open>
  The arguments of one \<^verbatim>\<open>session.get\<close> or \<^verbatim>\<open>session.post\<close> call: the form
  fields passed as \<^verbatim>\<open>data=\<close> and the \<^verbatim>\<open>timeout=\<close> keyword, each \<open>None\<close>
  when the call does not pass it.
\<close>

record request =
  verb :: http_method
  url :: string
  data :: "(string \<times> string) list option"
  timeout :: "nat option"

record response =
  status_code :: nat
  reason :: string
  resp_url :: string
  content :: string
  resp_text :: string

text \<open>\<^verbatim>\<open>response.raise_for_status()\<close>.\<close>

definition raise_for_status :: "response \<Rightarrow> exn + unit" where
  "raise_for_status r =
     (if 400 \<le> status_code r \<and> status_code r < 500 then
        Inl (HTTPError (show_nat (status_code r) @ '' Client Error: '' @ reason r
                          @ '' for url: '' @ resp_url r))
      else if 500 \<le> status_code r \<and> status_code r < 600 then
        Inl (HTTPError (show_nat (status_code r) @ '' Server Error: '' @ reason r
                          @ '' for url: '' @ resp_url r))
      else Inr ())"

section \<open>Programs over sessions\<close>

text \<open>
  A function that talks to the network is a tree of its effects: it returns, raises,
  creates a \<^verbatim>\<open>requests.Session\<close> (and is handed the new object), or sends a request
  on a session and continues with the response or with the exception the transport
  raised.
\<close>

type_synonym sid = nat

datatype 'a prog =
    Return 'a
  | Raise exn
  | NewSession "sid \<Rightarrow> 'a prog"
  | Send sid request "exn + response \<Rightarrow> 'a prog"

text \<open>Sequencing, use of a pure step that may raise, and \<^verbatim>\<open>try: ... except\<close>.\<close>

primrec bind :: "'a prog \<Rightarrow> ('a \<Rightarrow> 'b prog) \<Rightarrow> 'b prog" where
  "bind (Return x) f = f x"
| "bind (Raise e) f = Raise e"
| "bind (NewSession k) f = NewSession (\<lambda>i. bind (k i) f)"
| "bind (Send i r k) f = Send i r (\<lambda>out. bind (k out) f)"

fun lift :: "exn + 'a \<Rightarrow> ('a \<Rightarrow> 'b prog) \<Rightarrow> 'b prog" where
  "lift (Inl e) k = Raise e"
| "lift (Inr x) k = k x"

primrec try_except :: "'a prog \<Rightarrow> (exn \<Rightarrow> 'a prog) \<Rightarrow> 'a prog" where
  "try_except (Return x) h = Return x"
| "try_except (Raise e) h = h e"
| "try_except (NewSession k) h = NewSession (\<lambda>i. try_except (k i) h)"
| "try_except (Send i r k) h = Send i r (\<lambda>out. try_except (k out) h)"

text \<open>
  The world a program runs in: the state of every session object created so far (its
  connections and cookies, together with what the remote end remembers of it), the next
  unused object identity, and the record of every exchange: the session used, the
  request, and what came back.
\<close>

record 's world =
  sessions :: "sid \<Rightarrow> 's"
  next_id :: sid
  exchanges :: "(sid \<times> request \<times> (exn + response)) list"

text \<open>
  The transport is a parameter: \<open>net s r\<close> is what sending \<open>r\<close> on a session in state
  \<open>s\<close> produces (a response, or the exception raised once the adapter's retries are
  exhausted) and the session's next state; \<open>fresh\<close> is the state of a session just
  created with the retrying adapter mounted.
\<close>

type_synonym 's transport = "'s \<Rightarrow> request \<Rightarrow> (exn + response) \<times> 's"

definition new_session :: "'s \<Rightarrow> 's world \<Rightarrow> 's world" where
  "new_session fresh w =
     w\<lparr>sessions := (sessions w)(next_id w := fresh), next_id := Suc (next_id w)\<rparr>"

definition sent :: "'s transport \<Rightarrow> sid \<Rightarrow> request \<Rightarrow> 's world \<Rightarrow> 's world" where
  "sent net i r w =
     w\<lparr>sessions := (sessions w)(i := snd (net (sessions w i) r)),
       exchanges := exchanges w @ [(i, r, fst (net (sessions w i) r))]\<rparr>"

text \<open>Running a program to its end.\<close>

primrec exec :: "'s transport \<Rightarrow> 's \<Rightarrow> 'a prog \<Rightarrow> 's world \<Rightarrow> (exn + 'a) \<times> 's world" where
  "exec net fresh (Return x) w = (Inr x, w)"
| "exec net fresh (Raise e) w = (Inl e, w)"
| "exec net fresh (NewSession k) w = exec net fresh (k (next_id w)) (new_session fresh w)"
| "exec net fresh (Send i r k) w =
     exec net fresh (k (fst (net (sessions w i) r))) (sent net i r w)"

text \<open>
  One step of a program, and two programs run on one world under a schedule that says
  whose turn each step is (\<open>True\<close> for the first). A program that has returned or
  raised stays as it is.
\<close>

primrec step :: "'s transport \<Rightarrow> 's \<Rightarrow> 'a prog \<Rightarrow> 's world \<Rightarrow> 'a prog \<times> 's world" where
  "step net fresh (Return x) w = (Return x, w)"
| "step net fresh (Raise e) w = (Raise e, w)"
| "step net fresh (NewSession k) w = (k (next_id w), new_session fresh w)"
| "step net fresh (Send i r k) w = (k (fst (net (sessions w i) r)), sent net i r w)"

fun interleave ::
  "'s transport \<Rightarrow> 's \<Rightarrow> bool list \<Rightarrow> 'a prog \<times> 'b prog \<times> 's world
     \<Rightarrow> 'a prog \<times> 'b prog \<times> 's world" where
  "interleave net fresh [] c = c"
| "interleave net fresh (first # sched) (p, q, w) =
     (if first then
        interleave net fresh sched (fst (step net fresh p w), q, snd (step net fresh p w))
      else
        interleave net fresh sched (p, fst (step net fresh q w), snd (step net fresh q w)))"

fun outcome :: "'a prog \<Rightarrow> (exn + 'a) option" where
  "outcome (Return x) = Some (Inr x)"
| "outcome (Raise e) = Some (Inl e)"
| "outcome (NewSession k) = None"
| "outcome (Send i r k) = None"

section \<open>The navigator\<close>

definition base_url :: string where
  "base_url = ''https://servicioselectorales.tse.go.cr/chc''"

definition search_url :: string where
  "search_url = base_url @ ''/consulta_cedula.aspx''"

definition result_url :: string where
  "result_url = base_url @ ''/resultado_persona.aspx''"

text \<open>\<^verbatim>\<open>x['value'] if x else ''\<close>: a tag is always truthy.\<close>

fun value_or_empty :: "node option \<Rightarrow> exn + string" where
  "value_or_empty None = Inr ''''"
| "value_or_empty (Some tag) = getitem tag ''value''"

text \<open>
  The three hidden ASP.NET fields of a page, as the source extracts them after the first
  and after the second response.
\<close>

definition extract_hidden_fields :: "soup \<Rightarrow> exn + (string \<times> string) list" where
  "extract_hidden_fields soup =
     (let viewstate = soup_find ''input'' [(''name'', ''__VIEWSTATE'')] soup;
          viewstategenerator = soup_find ''input'' [(''name'', ''__VIEWSTATEGENERATOR'')] soup;
          eventvalidation = soup_find ''input'' [(''name'', ''__EVENTVALIDATION'')] soup
      in case value_or_empty viewstate of
           Inl e \<Rightarrow> Inl e
         | Inr vs \<Rightarrow>
            (case value_or_empty viewstategenerator of
               Inl e \<Rightarrow> Inl e
             | Inr vg \<Rightarrow>
                (case value_or_empty eventvalidation of
                   Inl e \<Rightarrow> Inl e
                 | Inr ev \<Rightarrow>
                     Inr [(''__VIEWSTATE'', vs),
                          (''__VIEWSTATEGENERATOR'', vg),
                          (''__EVENTVALIDATION'', ev)])))"

text \<open>
  \<^verbatim>\<open>session.get(url)\<close> and \<^verbatim>\<open>session.post(url, data=d)\<close>: no other
  keyword is passed, so \<^verbatim>\<open>timeout\<close> keeps its default \<^verbatim>\<open>None\<close>. An
  exception raised by the transport propagates.
\<close>

definition get_request :: "string \<Rightarrow> request" where
  "get_request u = \<lparr>verb = GET, url = u, data = None, timeout = None\<rparr>"

definition post_request :: "string \<Rightarrow> (string \<times> string) list \<Rightarrow> request" where
  "post_request u d = \<lparr>verb = POST, url = u, data = Some d, timeout = None\<rparr>"

definition session_get :: "sid \<Rightarrow> string \<Rightarrow> (response \<Rightarrow> 'a prog) \<Rightarrow> 'a prog" where
  "session_get session u k = Send session (get_request u) (\<lambda>out. lift out k)"

definition session_post ::
  "sid \<Rightarrow> string \<Rightarrow> (string \<times> string) list \<Rightarrow> (response \<Rightarrow> 'a prog) \<Rightarrow> 'a prog" where
  "session_post session u d k = Send session (post_request u d) (\<lambda>out. lift out k)"

text \<open>
  \<^verbatim>\<open>get_tse_details_html(cedula)\<close>. Both \<^verbatim>\<open>except\<close> clauses print and re-raise.
\<close>

definition get_tse_details_html :: "(markup \<Rightarrow> exn + soup) \<Rightarrow> string \<Rightarrow> string prog" where
  "get_tse_details_html BeautifulSoup cedula =
     NewSession (\<lambda>session.
       try_except
         (session_get session search_url (\<lambda>response.
          lift (raise_for_status response) (\<lambda>_.
          lift (BeautifulSoup (Bytes (content response))) (\<lambda>soup.
          lift (extract_hidden_fields soup) (\<lambda>hidden_fields.
          let search_data =
                [(''txtcedula'', cedula), (''btnConsultaCedula'', ''Consultar'')] @ hidden_fields
          in
          session_post session search_url search_data (\<lambda>response.
          lift (raise_for_status response) (\<lambda>_.
          lift (BeautifulSoup (Bytes (content response))) (\<lambda>soup.
          lift (extract_hidden_fields soup) (\<lambda>new_hidden_fields.
          let details_data =
                [(''__EVENTTARGET'', ''LinkButton11''), (''__EVENTARGUMENT'', '''')]
                  @ new_hidden_fields
          in
          session_post session result_url details_data (\<lambda>response.
          lift (raise_for_status response) (\<lambda>_.
          let details_html = resp_text response in
          Return details_html)))))))))))
         (\<lambda>e. Raise e))"

section \<open>The facade and the route\<close>

text \<open>
  \<^verbatim>\<open>check_fallecido(cedula)\<close>. Its first argument here is the uppercase table
  that \<^verbatim>\<open>.upper()\<close> uses outside ASCII.
\<close>

definition check_fallecido ::
  "(string \<Rightarrow> string) \<Rightarrow> (markup \<Rightarrow> exn + soup) \<Rightarrow> string \<Rightarrow> pydict prog" where
  "check_fallecido toupper BeautifulSoup cedula =
     try_except
       (bind (get_tse_details_html BeautifulSoup cedula) (\<lambda>html_content.
        lift (BeautifulSoup (Str html_content)) (\<lambda>soup.
        case soup_find ''span'' [(''id'', ''lblfallecido'')] soup of
          Some fallecido_span \<Rightarrow>
            (let fallecido_value = upper toupper (get_text_strip fallecido_span) in
             if fallecido_value = ''SI'' then
               Return [(''fallecido'', PyBool True), (''cedula'', PyStr cedula)]
             else if fallecido_value = ''NO'' then
               Return [(''fallecido'', PyBool False), (''cedula'', PyStr cedula)]
             else
               Return [(''error'', PyStr (''Unknown value for Fallecido/a: '' @ fallecido_value))])
        | None \<Rightarrow>
            Return [(''error'', PyStr ''Could not find 'lblfallecido' element in HTML'')])))
       (\<lambda>e. Return [(''error'', PyStr (str_exn e))])"

text \<open>
  \<^verbatim>\<open>check_cedula()\<close>, the handler of \<^verbatim>\<open>GET /check\<close>. The argument is
  \<^verbatim>\<open>request.args.get('cedula')\<close>, \<open>None\<close> when the parameter is absent; the result
  is the JSON body and the HTTP status.
\<close>

definition check_cedula ::
  "(string \<Rightarrow> string) \<Rightarrow> (markup \<Rightarrow> exn + soup) \<Rightarrow> string option
     \<Rightarrow> (pydict \<times> nat) prog" where
  "check_cedula toupper BeautifulSoup cedula =
     (case cedula of
        None \<Rightarrow> Return ([(''error'', PyStr ''Missing 'cedula' parameter'')], 400)
      | Some c \<Rightarrow>
          if c = '''' then Return ([(''error'', PyStr ''Missing 'cedula' parameter'')], 400)
          else
            bind (check_fallecido toupper BeautifulSoup c) (\<lambda>result.
              if ''error'' \<in> set (map fst result) then Return (result, 500)
              else Return (result, 200)))"

section \<open>What the navigator does with each response\<close>

text \<open>
  The source treats the first and the second response alike: check the status, parse
  the body, extract the hidden fields. The third is only checked and its text returned.
\<close>

definition page_tokens ::
  "(markup \<Rightarrow> exn + soup) \<Rightarrow> exn + response \<Rightarrow> exn + (string \<times> string) list" where
  "page_tokens BeautifulSoup out =
     (case out of
        Inl e \<Rightarrow> Inl e
      | Inr response \<Rightarrow>
         (case raise_for_status response of
            Inl e \<Rightarrow> Inl e
          | Inr _ \<Rightarrow>
             (case BeautifulSoup (Bytes (content response)) of
                Inl e \<Rightarrow> Inl e
              | Inr soup \<Rightarrow> extract_hidden_fields soup)))"

definition final_page :: "exn + response \<Rightarrow> exn + string" where
  "final_page out =
     (case out of
        Inl e \<Rightarrow> Inl e
      | Inr response \<Rightarrow>
         (case raise_for_status response of
            Inl e \<Rightarrow> Inl e
          | Inr _ \<Rightarrow> Inr (resp_text response)))"

text \<open>The three requests of the dialogue, given the tokens they carry.\<close>

definition search_request :: "string \<Rightarrow> (string \<times> string) list \<Rightarrow> request" where
  "search_request cedula tokens =
     post_request search_url
       ([(''txtcedula'', cedula), (''btnConsultaCedula'', ''Consultar'')] @ tokens)"

definition details_request :: "(string \<times> string) list \<Rightarrow> request" where
  "details_request tokens =
     post_request result_url
       ([(''__EVENTTARGET'', ''LinkButton11''), (''__EVENTARGUMENT'', '''')] @ tokens)"

definition empty_tokens :: "(string \<times> string) list" where
  "empty_tokens =
     [(''__VIEWSTATE'', ''''), (''__VIEWSTATEGENERATOR'', ''''), (''__EVENTVALIDATION'', '''')]"

text \<open>The exchanges a program adds to the record when run from a world.\<close>

definition performed ::
  "'s transport \<Rightarrow> 's \<Rightarrow> 'a prog \<Rightarrow> 's world \<Rightarrow> (sid \<times> request \<times> (exn + response)) list" where
  "performed net fresh p w =
     drop (length (exchanges w)) (exchanges (snd (exec net fresh p w)))"

section \<open>Two lookups on one world\<close>

text \<open>
  A program is confined to session \<open>i\<close> when it creates no session and sends only on
  \<open>i\<close>. Such a program is a function of that one session's state: \<open>run_on\<close> is its
  result. \<open>finishes_within p n\<close> bounds the steps \<open>p\<close> can still take.
\<close>

primrec confined :: "sid \<Rightarrow> 'a prog \<Rightarrow> bool" where
  "confined i (Return x) \<longleftrightarrow> True"
| "confined i (Raise e) \<longleftrightarrow> True"
| "confined i (NewSession k) \<longleftrightarrow> False"
| "confined i (Send j r k) \<longleftrightarrow> j = i \<and> (\<forall>out. confined i (k out))"

primrec run_on :: "'s transport \<Rightarrow> 'a prog \<Rightarrow> 's \<Rightarrow> exn + 'a" where
  "run_on net (Return x) s = Inr x"
| "run_on net (Raise e) s = Inl e"
| "run_on net (NewSession k) s = run_on net (k 0) s"
| "run_on net (Send j r k) s = run_on net (k (fst (net s r))) (snd (net s r))"

primrec finishes_within :: "'a prog \<Rightarrow> nat \<Rightarrow> bool" where
  "finishes_within (Return x) n \<longleftrightarrow> True"
| "finishes_within (Raise e) n \<longleftrightarrow> True"
| "finishes_within (NewSession k) n \<longleftrightarrow>
     (case n of 0 \<Rightarrow> False | Suc m \<Rightarrow> \<forall>i. finishes_within (k i) m)"
| "finishes_within (Send j r k) n \<longleftrightarrow>
     (case n of 0 \<Rightarrow> False | Suc m \<Rightarrow> \<forall>out. finishes_within (k out) m)"

text \<open>
  The requests a program confined to one session sends, each with what it gets back,
  when run on that session's state; the part of a record that took place on a given
  session; and what a world's record has gained since an earlier world.
\<close>

primrec trace_on :: "'s transport \<Rightarrow> 'a prog \<Rightarrow> 's \<Rightarrow> (request \<times> (exn + response)) list" where
  "trace_on net (Return x) s = []"
| "trace_on net (Raise e) s = []"
| "trace_on net (NewSession k) s = trace_on net (k 0) s"
| "trace_on net (Send j r k) s =
     (r, fst (net s r)) # trace_on net (k (fst (net s r))) (snd (net s r))"

definition on_session :: "sid \<Rightarrow> (sid \<times> 'x) list \<Rightarrow> 'x list" where
  "on_session i xs = map snd (filter (\<lambda>x. fst x = i) xs)"

definition added :: "'s world \<Rightarrow> 's world \<Rightarrow> (sid \<times> request \<times> (exn + response)) list" where
  "added w0 w = drop (length (exchanges w0)) (exchanges w)"

text \<open>
  What holds of one of the two programs throughout a run that started in \<open>w0\<close>: either
  it has not yet created its session, and whichever identity it is given it will be
  confined to it, produce \<open>R\<close> and perform \<open>T\<close>; or it owns a session created since
  \<open>w0\<close>, is confined to it, run on that session's present state produces \<open>R\<close>, and what
  the record shows on that session, followed by what is still to come, is \<open>T\<close>.
\<close>

definition thread_inv ::
  "'s transport \<Rightarrow> 's \<Rightarrow> exn + 'a \<Rightarrow> (request \<times> (exn + response)) list \<Rightarrow> 's world
     \<Rightarrow> 'a prog \<Rightarrow> 's world \<Rightarrow> sid option \<Rightarrow> bool" where
  "thread_inv net fresh R T w0 p w own =
     (case own of
        None \<Rightarrow>
          (\<exists>k. p = NewSession k \<and>
               (\<forall>i. confined i (k i) \<and> run_on net (k i) fresh = R \<and>
                    trace_on net (k i) fresh = T))
      | Some i \<Rightarrow>
          next_id w0 \<le> i \<and> i < next_id w \<and> confined i p \<and>
          run_on net p (sessions w i) = R \<and>
          on_session i (added w0 w) @ trace_on net p (sessions w i) = T)"

text \<open>
  What holds of both together: their sessions differ, every exchange added to the record
  is on one of the two, and the next identity counts the sessions created.
\<close>

definition pair_inv ::
  "'s transport \<Rightarrow> 's \<Rightarrow> exn + 'a \<Rightarrow> (request \<times> (exn + response)) list
     \<Rightarrow> exn + 'b \<Rightarrow> (request \<times> (exn + response)) list \<Rightarrow> 's world
     \<Rightarrow> 'a prog \<Rightarrow> 'b prog \<Rightarrow> 's world \<Rightarrow> sid option \<Rightarrow> sid option \<Rightarrow> bool" where
  "pair_inv net fresh RA TA RB TB w0 pa pb w oa ob \<longleftrightarrow>
     thread_inv net fresh RA TA w0 pa w oa \<and>
     thread_inv net fresh RB TB w0 pb w ob \<and>
     (\<forall>i. oa = Some i \<longrightarrow> ob \<noteq> Some i) \<and>
     length (exchanges w0) \<le> length (exchanges w) \<and>
     (\<forall>x \<in> set (added w0 w). oa = Some (fst x) \<or> ob = Some (fst x)) \<and>
     next_id w =
       next_id w0 + (case oa of None \<Rightarrow> 0 | Some i \<Rightarrow> 1)
         + (case ob of None \<Rightarrow> 0 | Some i \<Rightarrow> 1)"


section \<open>A small registry site to run the program against\<close>

text \<open>
  A stand-in for the remote site, used to run the program on concrete inputs. A session
  remembers the identifier submitted on it. The form page and the results page carry the
  three hidden inputs; submitting the identifier \<open>0\<close> is answered by a page without
  them. The details page shows the status of the persons \<open>1\<close>, \<open>2\<close>, \<open>3\<close>,
  \<open>5\<close> (padded with a no-break space in front and an em space and a line feed behind)
  and \<open>6\<close> (whose second letter is inside a \<^verbatim>\<open>b\<close> element), and has no status
  element for anyone else. \<open>down_net\<close> is a site that cannot be
  reached.
\<close>

definition page :: "string \<Rightarrow> response" where
  "page body =
     \<lparr>status_code = 200, reason = ''OK'', resp_url = '''', content = body, resp_text = body\<rparr>"

definition mock_registry :: "string \<Rightarrow> string" where
  "mock_registry cedula =
     (case map_of
             [(''1'', '' si ''), (''2'', ''no''), (''3'', ''MAYBE''),
              (''5'', [CHR 0xC2, CHR 0xA0] @ ''Si'' @ [CHR 0xE2, CHR 0x80, CHR 0x83, CHR 0x0A]),
              (''6'', ''S <b>I</b>'')] cedula of
        Some status \<Rightarrow> status
      | None \<Rightarrow> ''no such person'')"

definition submitted :: "request \<Rightarrow> string" where
  "submitted r =
     (case data r of
        None \<Rightarrow> ''''
      | Some d \<Rightarrow> (case map_of d ''txtcedula'' of None \<Rightarrow> '''' | Some c \<Rightarrow> c))"

definition mock_net :: "string transport" where
  "mock_net s r =
     (if verb r = GET then (Inr (page ''form''), s)
      else if url r = search_url then
        (Inr (page (if submitted r = ''0'' then ''oops'' else ''results'')), submitted r)
      else (Inr (page (mock_registry s)), s))"

definition down_net :: "string transport" where
  "down_net s r = (Inl (RequestException ''connection refused''), s)"

definition hidden_inputs :: "string \<Rightarrow> soup" where
  "hidden_inputs b =
     [Tag ''form'' []
        [Tag ''input'' [(''name'', ''__VIEWSTATE''), (''value'', ''vs-'' @ b)] [],
         Tag ''input'' [(''name'', ''__VIEWSTATEGENERATOR''), (''value'', ''vg-'' @ b)] [],
         Tag ''input'' [(''name'', ''__EVENTVALIDATION''), (''value'', ''ev-'' @ b)] []]]"

fun mock_BeautifulSoup :: "markup \<Rightarrow> exn + soup" where
  "mock_BeautifulSoup (Bytes b) =
     Inr (if b = ''oops'' then [Tag ''p'' [] [Text b]] else hidden_inputs b)"
| "mock_BeautifulSoup (Str t) =
     Inr (if t = ''no such person'' then [Tag ''p'' [] [Text t]]
          else if t = ''S <b>I</b>'' then
            [Tag ''span'' [(''id'', ''lblfallecido'')] [Text ''S '', Tag ''b'' [] [Text ''I'']]]
          else [Tag ''span'' [(''id'', ''lblfallecido'')] [Text t]])"

text \<open>
  An uppercase table for a few code points outside ASCII: U+00ED to U+00CD, U+0131 to
  \<^verbatim>\<open>I\<close>, U+017F to \<^verbatim>\<open>S\<close>, U+00DF to \<^verbatim>\<open>SS\<close>; the others unchanged.
\<close>

definition mock_toupper :: "string \<Rightarrow> string" where
  "mock_toupper cp =
     (case map_of
             [([CHR 0xC3, CHR 0xAD], [CHR 0xC3, CHR 0x8D]),
              ([CHR 0xC4, CHR 0xB1], ''I''),
              ([CHR 0xC5, CHR 0xBF], ''S''),
              ([CHR 0xC3, CHR 0x9F], ''SS'')] cp of
        Some u \<Rightarrow> u
      | None \<Rightarrow> cp)"

definition world0 :: "string world" where
  "world0 = \<lparr>sessions = (\<lambda>_. ''''), next_id = 0, exchanges = []\<rparr>"

lemmas model_defs =
  check_cedula_def check_fallecido_def get_tse_details_html_def session_get_def
  session_post_def get_request_def post_request_def new_session_def sent_def
  raise_for_status_def extract_hidden_fields_def soup_find_def descendants_def
  get_text_strip_def element_text_def spec_normalized_text_def List.map_filter_def
  strip_def isspace_def python_whitespace_def
  utf8_len_def upper_def upper_point_def upper_char_def
  search_url_def result_url_def base_url_def

lemmas mock_defs =
  page_def mock_registry_def submitted_def mock_net_def down_net_def hidden_inputs_def
  mock_toupper_def world0_def

section \<open>Running programs\<close>

lemma exec_bind:
  "exec net fresh (bind p f) w =
     (case exec net fresh p w of
        (Inl e, w') \<Rightarrow> (Inl e, w')
      | (Inr x, w') \<Rightarrow> exec net fresh (f x) w')"
  by (induction p arbitrary: w) simp_all

lemma exec_try_except:
  "exec net fresh (try_except p h) w =
     (case exec net fresh p w of
        (Inl e, w') \<Rightarrow> exec net fresh (h e) w'
      | (Inr x, w') \<Rightarrow> (Inr x, w'))"
  by (induction p arbitrary: w) simp_all

lemma exec_lift:
  "exec net fresh (lift v k) w =
     (case v of Inl e \<Rightarrow> (Inl e, w) | Inr x \<Rightarrow> exec net fresh (k x) w)"
  by (cases v) simp_all

lemma exec_step:
  "exec net fresh p w = exec net fresh (fst (step net fresh p w)) (snd (step net fresh p w))"
  by (cases p) simp_all

text \<open>The navigator, run from any world, written out exchange by exchange.\<close>

lemma nav_exec:
  "exec net fresh (get_tse_details_html BS cedula) w =
    (let i = next_id w;
         w1 = sent net i (get_request search_url) (new_session fresh w);
         o1 = fst (net fresh (get_request search_url))
     in case page_tokens BS o1 of
          Inl e \<Rightarrow> (Inl e, w1)
        | Inr t0 \<Rightarrow>
           (let w2 = sent net i (search_request cedula t0) w1;
                o2 = fst (net (sessions w1 i) (search_request cedula t0))
            in case page_tokens BS o2 of
                 Inl e \<Rightarrow> (Inl e, w2)
               | Inr t1 \<Rightarrow>
                  (let w3 = sent net i (details_request t1) w2;
                       o3 = fst (net (sessions w2 i) (details_request t1))
                   in (final_page o3, w3))))"
  unfolding get_tse_details_html_def session_get_def session_post_def
  by (simp add: exec_try_except exec_lift Let_def page_tokens_def final_page_def
        search_request_def details_request_def new_session_def sent_def split: sum.splits)



lemma final_page_Inr:
  "final_page out = Inr doc \<longleftrightarrow>
     (\<exists>r. out = Inr r \<and> raise_for_status r = Inr () \<and> doc = resp_text r)"
  by (auto simp: final_page_def split: sum.splits)


lemma nav_performed:
  "performed net fresh (get_tse_details_html BS cedula) w =
    (let i = next_id w;
         o1 = net fresh (get_request search_url)
     in case page_tokens BS (fst o1) of
          Inl e \<Rightarrow> [(i, get_request search_url, fst o1)]
        | Inr t0 \<Rightarrow>
           (let o2 = net (snd o1) (search_request cedula t0)
            in case page_tokens BS (fst o2) of
                 Inl e \<Rightarrow> [(i, get_request search_url, fst o1), (i, search_request cedula t0, fst o2)]
               | Inr t1 \<Rightarrow>
                   [(i, get_request search_url, fst o1),
                    (i, search_request cedula t0, fst o2),
                    (i, details_request t1, fst (net (snd o2) (details_request t1)))]))"
  unfolding performed_def nav_exec Let_def
  by (simp add: sent_def new_session_def split: sum.splits)

lemma nav_order:
  "\<exists>n. 1 \<le> n \<and> n \<le> 3 \<and>
     map (\<lambda>(i, r, out). (i, verb r, url r, data r = None))
         (performed net fresh (get_tse_details_html BS cedula) w) =
     take n [(next_id w, GET, search_url, True),
             (next_id w, POST, search_url, False),
             (next_id w, POST, result_url, False)]"
proof (cases "page_tokens BS (fst (net fresh (get_request search_url)))")
  case (Inl e)
  then show ?thesis
    unfolding nav_performed Let_def
    by (intro exI [of _ 1]) (simp add: get_request_def)
next
  case t0: (Inr t0)
  show ?thesis
  proof (cases "page_tokens BS (fst (net (snd (net fresh (get_request search_url)))
                                       (search_request cedula t0)))")
    case (Inl e)
    with t0 show ?thesis
      unfolding nav_performed Let_def
      by (intro exI [of _ 2])
         (simp add: get_request_def post_request_def search_request_def)
  next
    case (Inr t1)
    with t0 show ?thesis
      unfolding nav_performed Let_def
      by (intro exI [of _ 3])
         (simp add: get_request_def post_request_def search_request_def details_request_def)
  qed
qed

lemma nav_result:
  "fst (exec net fresh (get_tse_details_html BS cedula) w) =
    (let o1 = net fresh (get_request search_url)
     in case page_tokens BS (fst o1) of
          Inl e \<Rightarrow> Inl e
        | Inr t0 \<Rightarrow>
           (let o2 = net (snd o1) (search_request cedula t0)
            in case page_tokens BS (fst o2) of
                 Inl e \<Rightarrow> Inl e
               | Inr t1 \<Rightarrow> final_page (fst (net (snd o2) (details_request t1)))))"
  unfolding nav_exec Let_def
  by (simp add: sent_def new_session_def split: sum.splits)

lemma facade_world:
  "snd (exec net fresh (check_fallecido uc BS cedula) w) =
   snd (exec net fresh (get_tse_details_html BS cedula) w)"
  unfolding check_fallecido_def
  by (simp add: exec_try_except exec_bind exec_lift Let_def
        split: prod.splits sum.splits option.splits)

lemma facade_performed:
  "performed net fresh (check_fallecido uc BS cedula) w =
   performed net fresh (get_tse_details_html BS cedula) w"
  by (simp add: performed_def facade_world)

lemma transport_exception_ends_navigation:
  assumes "(i, r, Inl e) \<in> set (performed net fresh (get_tse_details_html BS cedula) w)"
  shows "fst (exec net fresh (get_tse_details_html BS cedula) w) = Inl e"
  using assms unfolding nav_performed nav_result Let_def
  by (auto simp: page_tokens_def final_page_def split: sum.splits)

lemma navigator_requests_without_timeout:
  assumes "(i, r, out) \<in> set (performed net fresh (get_tse_details_html BS cedula) w)"
  shows "timeout r = None"
  using assms unfolding nav_performed Let_def
  by (auto simp: search_request_def details_request_def get_request_def post_request_def
        split: sum.splits)



lemmas request_literals =
  get_request_def post_request_def search_request_def details_request_def
  search_url_def result_url_def base_url_def

section \<open>The facade, case by case\<close>

lemma facade_of_raise:
  assumes "fst (exec net fresh (get_tse_details_html BS cedula) w) = Inl e"
  shows "exec net fresh (check_fallecido uc BS cedula) w =
           (Inr [(''error'', PyStr (str_exn e))],
            snd (exec net fresh (get_tse_details_html BS cedula) w))"
proof -
  obtain w' where "exec net fresh (get_tse_details_html BS cedula) w = (Inl e, w')"
    using assms by (cases "exec net fresh (get_tse_details_html BS cedula) w") simp
  then show ?thesis
    unfolding check_fallecido_def by (simp add: exec_try_except exec_bind)
qed

lemma facade_of_parse_raise:
  assumes "exec net fresh (get_tse_details_html BS cedula) w = (Inr html, w')"
    and "BS (Str html) = Inl e"
  shows "exec net fresh (check_fallecido uc BS cedula) w = (Inr [(''error'', PyStr (str_exn e))], w')"
  using assms unfolding check_fallecido_def
  by (simp add: exec_try_except exec_bind exec_lift)

lemma facade_of_missing:
  assumes "exec net fresh (get_tse_details_html BS cedula) w = (Inr html, w')"
    and "BS (Str html) = Inr soup"
    and "soup_find ''span'' [(''id'', ''lblfallecido'')] soup = None"
  shows "exec net fresh (check_fallecido uc BS cedula) w =
           (Inr [(''error'', PyStr ''Could not find 'lblfallecido' element in HTML'')], w')"
  using assms unfolding check_fallecido_def
  by (simp add: exec_try_except exec_bind exec_lift)

lemma facade_of_found:
  assumes "exec net fresh (get_tse_details_html BS cedula) w = (Inr html, w')"
    and "BS (Str html) = Inr soup"
    and "soup_find ''span'' [(''id'', ''lblfallecido'')] soup = Some el"
  shows "exec net fresh (check_fallecido uc BS cedula) w =
           (Inr (if upper uc (get_text_strip el) = ''SI'' then
                   [(''fallecido'', PyBool True), (''cedula'', PyStr cedula)]
                 else if upper uc (get_text_strip el) = ''NO'' then
                   [(''fallecido'', PyBool False), (''cedula'', PyStr cedula)]
                 else
                   [(''error'',
                     PyStr (''Unknown value for Fallecido/a: '' @ upper uc (get_text_strip el)))]),
            w')"
  using assms unfolding check_fallecido_def
  by (simp add: exec_try_except exec_bind exec_lift Let_def)

lemma facade_cases:
  "\<exists>w'. exec net fresh (check_fallecido uc BS cedula) w =
           (Inr [(''fallecido'', PyBool True), (''cedula'', PyStr cedula)], w') \<or>
         exec net fresh (check_fallecido uc BS cedula) w =
           (Inr [(''fallecido'', PyBool False), (''cedula'', PyStr cedula)], w') \<or>
         (\<exists>m. exec net fresh (check_fallecido uc BS cedula) w = (Inr [(''error'', PyStr m)], w'))"
proof (cases "exec net fresh (get_tse_details_html BS cedula) w")
  case (Pair res w')
  show ?thesis
  proof (cases res)
    case (Inl e)
    with Pair facade_of_raise [of net fresh BS cedula w e] show ?thesis by auto
  next
    case (Inr html)
    note nav = Pair [unfolded Inr]
    show ?thesis
    proof (cases "BS (Str html)")
      case (Inl e)
      from facade_of_parse_raise [OF nav Inl] show ?thesis by blast
    next
      case soup: (Inr soup)
      show ?thesis
      proof (cases "soup_find ''span'' [(''id'', ''lblfallecido'')] soup")
        case None
        from facade_of_missing [OF nav soup None] show ?thesis by blast
      next
        case (Some el)
        from facade_of_found [OF nav soup Some] show ?thesis
          by (cases "upper uc (get_text_strip el) = ''SI''";
              cases "upper uc (get_text_strip el) = ''NO''") auto
      qed
    qed
  qed
qed

lemma get_text_strip_single:
  "get_text_strip (Tag name attrs [Text t]) = strip t"
  by (simp add: get_text_strip_def descendants_def List.map_filter_def)

lemma route_exec:
  assumes "cedula \<noteq> ''''"
    and "exec net fresh (check_fallecido uc BS cedula) w = (Inr d, w')"
  shows "exec net fresh (check_cedula uc BS (Some cedula)) w =
           (Inr (d, if ''error'' \<in> set (map fst d) then 500 else 200), w')"
  using assms unfolding check_cedula_def
  by (simp add: exec_bind)


section \<open>Trimming and uppercasing\<close>

lemma whitespace_well_formed: "cp \<in> set python_whitespace \<Longrightarrow> well_formed cp"
  by (auto simp: python_whitespace_def well_formed_def utf8_len_def)

lemma code_points_cons:
  "well_formed cp \<Longrightarrow> code_points (cp @ s) = cp # code_points s"
  by (cases cp) (auto simp: well_formed_def)

lemma code_points_concat:
  "\<forall>cp \<in> set cps. well_formed cp \<Longrightarrow> code_points (concat cps @ s) = cps @ code_points s"
  by (induction cps) (simp_all add: code_points_cons)

text \<open>
  A word that neither starts nor ends with whitespace, with whitespace on both sides:
  \<^verbatim>\<open>strip\<close> gives the word.
\<close>

lemma strip_padded:
  assumes "\<forall>cp \<in> set ws1. cp \<in> set python_whitespace"
    and "\<forall>cp \<in> set ws2. cp \<in> set python_whitespace"
    and "\<forall>cp \<in> set word. well_formed cp"
    and "word \<noteq> []" and "\<not> isspace (hd word)" and "\<not> isspace (last word)"
  shows "strip (concat ws1 @ concat word @ concat ws2) = concat word"
proof -
  have wf1: "\<forall>cp \<in> set ws1. well_formed cp" and wf2: "\<forall>cp \<in> set ws2. well_formed cp"
    using assms(1,2) whitespace_well_formed by blast+
  have "code_points (concat ws1 @ concat word @ concat ws2) = ws1 @ word @ ws2"
    using code_points_concat [OF wf1, of "concat word @ concat ws2"]
      code_points_concat [OF assms(3), of "concat ws2"]
      code_points_concat [OF wf2, of "[]"]
    by simp
  moreover have "dropWhile isspace (ws1 @ word @ ws2) = word @ ws2"
    using assms(1,4,5) by (simp add: dropWhile_append isspace_def) (cases word; simp add: isspace_def)
  moreover have "dropWhile isspace (rev (word @ ws2)) = rev word"
    using assms(2,4,6)
    by (simp add: dropWhile_append isspace_def) (cases word rule: rev_cases; simp add: isspace_def)
  ultimately show ?thesis by (simp add: strip_def)
qed

lemma strip_padded_two_letters:
  assumes "\<forall>cp \<in> set ws1. cp \<in> set python_whitespace"
    and "\<forall>cp \<in> set ws2. cp \<in> set python_whitespace"
    and "(of_char a :: nat) < 0xC0" and "(of_char b :: nat) < 0xC0"
    and "[a] \<notin> set python_whitespace" and "[b] \<notin> set python_whitespace"
  shows "strip (concat ws1 @ [a, b] @ concat ws2) = [a, b]"
  using strip_padded [OF assms(1,2), of "[[a], [b]]"] assms(3-6)
  by (simp add: well_formed_def utf8_len_def isspace_def)

lemma strip_padded_si:
  assumes "\<forall>cp \<in> set ws1. cp \<in> set python_whitespace"
    and "\<forall>cp \<in> set ws2. cp \<in> set python_whitespace"
    and "word \<in> {''SI'', ''Si'', ''sI'', ''si'', ''NO'', ''No'', ''nO'', ''no''}"
  shows "strip (concat ws1 @ word @ concat ws2) = word"
proof -
  from assms(3) obtain a b where w: "word = [a, b]"
    and ab: "a \<in> {CHR ''S'', CHR ''s'', CHR ''N'', CHR ''n''}"
      "b \<in> {CHR ''I'', CHR ''i'', CHR ''O'', CHR ''o''}"
    by auto
  from ab have "(of_char a :: nat) < 0xC0" "(of_char b :: nat) < 0xC0"
    "[a] \<notin> set python_whitespace" "[b] \<notin> set python_whitespace"
    by (auto simp: python_whitespace_def)
  from strip_padded_two_letters [OF assms(1,2) this] w show ?thesis by simp
qed

lemma upper_si:
  "word \<in> {''SI'', ''Si'', ''sI'', ''si''} \<Longrightarrow> upper uc word = ''SI''"
  by (auto simp: upper_def upper_point_def upper_char_def utf8_len_def)

lemma upper_no:
  "word \<in> {''NO'', ''No'', ''nO'', ''no''} \<Longrightarrow> upper uc word = ''NO''"
  by (auto simp: upper_def upper_point_def upper_char_def utf8_len_def)

lemma element_text_single:
  "element_text (Tag name attrs [Text t]) = t"
  by (simp add: element_text_def descendants_def List.map_filter_def)

section \<open>Two lookups on one world: the invariant\<close>

lemma exec_run_on:
  "confined i p \<Longrightarrow> fst (exec net fresh p w) = run_on net p (sessions w i)"
  by (induction p arbitrary: w) (simp_all add: sent_def)

lemma exec_trace_on:
  "confined i p \<Longrightarrow>
   exchanges (snd (exec net fresh p w)) =
     exchanges w @ map (Pair i) (trace_on net p (sessions w i))"
  by (induction p arbitrary: w) (simp_all add: sent_def)

lemma outcome_run_on: "outcome p = Some r \<Longrightarrow> run_on net p s = r"
  by (cases p) auto

lemma outcome_trace_on: "outcome p \<noteq> None \<Longrightarrow> trace_on net p s = []"
  by (cases p) auto

lemma on_session_simps:
  "on_session i [] = []"
  "on_session i (xs @ ys) = on_session i xs @ on_session i ys"
  "on_session i ((j, y) # xs) = (if j = i then y # on_session i xs else on_session i xs)"
  by (simp_all add: on_session_def)

lemma on_session_other:
  "\<forall>x \<in> set xs. fst x \<noteq> i \<Longrightarrow> on_session i xs = []"
  by (induction xs) (auto simp: on_session_def)

lemma added_new_session: "added w0 (new_session fresh w) = added w0 w"
  by (simp add: added_def new_session_def)

lemma added_sent:
  "length (exchanges w0) \<le> length (exchanges w) \<Longrightarrow>
   added w0 (sent net i r w) = added w0 w @ [(i, r, fst (net (sessions w i) r))]"
  by (simp add: added_def sent_def)

text \<open>A step of the first program that has not yet created its session.\<close>

lemma pair_inv_create:
  assumes "pair_inv net fresh RA TA RB TB w0 pa pb w None ob"
  shows "pair_inv net fresh RA TA RB TB w0 (fst (step net fresh pa w)) pb
           (snd (step net fresh pa w)) (Some (next_id w)) ob"
proof -
  from assms obtain k where k: "pa = NewSession k"
    and ka: "\<And>i. confined i (k i)" "\<And>i. run_on net (k i) fresh = RA"
      "\<And>i. trace_on net (k i) fresh = TA"
    by (auto simp: pair_inv_def thread_inv_def)
  from assms have b: "thread_inv net fresh RB TB w0 pb w ob"
    and len: "length (exchanges w0) \<le> length (exchanges w)"
    and mem: "\<forall>x \<in> set (added w0 w). ob = Some (fst x)"
    and cnt: "next_id w = next_id w0 + (case ob of None \<Rightarrow> 0 | Some i \<Rightarrow> 1)"
    by (auto simp: pair_inv_def)
  have below: "j < next_id w" if "ob = Some j" for j
    using b that by (simp add: thread_inv_def)
  have "\<forall>x \<in> set (added w0 w). fst x \<noteq> next_id w"
    using mem below by fastforce
  then have none: "on_session (next_id w) (added w0 w) = []"
    by (rule on_session_other)
  have a': "thread_inv net fresh RA TA w0 (k (next_id w)) (new_session fresh w) (Some (next_id w))"
    using ka cnt none
    by (simp add: thread_inv_def added_new_session) (simp add: new_session_def)
  have b': "thread_inv net fresh RB TB w0 pb (new_session fresh w) ob"
  proof (cases ob)
    case None
    with b show ?thesis by (simp add: thread_inv_def)
  next
    case (Some j)
    with b below [OF Some] show ?thesis
      by (simp add: thread_inv_def added_new_session) (simp add: new_session_def)
  qed
  have d: "\<forall>i. Some (next_id w) = Some i \<longrightarrow> ob \<noteq> Some i"
    using below by auto
  have len': "length (exchanges w0) \<le> length (exchanges (new_session fresh w))"
    using len by (simp add: new_session_def)
  have mem': "\<forall>x \<in> set (added w0 (new_session fresh w)).
                Some (next_id w) = Some (fst x) \<or> ob = Some (fst x)"
    using mem by (simp add: added_new_session)
  have cnt': "next_id (new_session fresh w) =
      next_id w0 + (case Some (next_id w) of None \<Rightarrow> 0 | Some i \<Rightarrow> 1)
        + (case ob of None \<Rightarrow> 0 | Some i \<Rightarrow> 1)"
    using cnt by (simp add: new_session_def)
  from a' b' d len' mem' cnt' show ?thesis
    unfolding k pair_inv_def by simp
qed

text \<open>A step of the first program on the session it owns.\<close>

lemma pair_inv_send:
  assumes "pair_inv net fresh RA TA RB TB w0 pa pb w (Some i) ob"
  shows "pair_inv net fresh RA TA RB TB w0 (fst (step net fresh pa w)) pb
           (snd (step net fresh pa w)) (Some i) ob"
proof (cases pa)
  case (Return x)
  with assms show ?thesis by simp
next
  case (Raise e)
  with assms show ?thesis by simp
next
  case (NewSession k)
  with assms show ?thesis by (simp add: pair_inv_def thread_inv_def)
next
  case (Send j r k)
  from assms have a: "next_id w0 \<le> i" "i < next_id w" "confined i pa"
    "run_on net pa (sessions w i) = RA"
    "on_session i (added w0 w) @ trace_on net pa (sessions w i) = TA"
    and b: "thread_inv net fresh RB TB w0 pb w ob"
    and d: "ob \<noteq> Some i"
    and len: "length (exchanges w0) \<le> length (exchanges w)"
    and mem: "\<forall>x \<in> set (added w0 w). Some i = Some (fst x) \<or> ob = Some (fst x)"
    and cnt: "next_id w = next_id w0 + 1 + (case ob of None \<Rightarrow> 0 | Some i \<Rightarrow> 1)"
    by (auto simp: pair_inv_def thread_inv_def)
  from a(3) Send have j: "j = i" and kc: "\<And>out. confined i (k out)"
    by simp_all
  let ?w = "sent net i r w"
  have add: "added w0 ?w = added w0 w @ [(i, r, fst (net (sessions w i) r))]"
    by (rule added_sent [OF len])
  have a': "thread_inv net fresh RA TA w0 (k (fst (net (sessions w i) r))) ?w (Some i)"
    using a kc unfolding Send j
    by (simp add: thread_inv_def add on_session_simps) (simp add: sent_def)
  have b': "thread_inv net fresh RB TB w0 pb ?w ob"
  proof (cases ob)
    case None
    with b show ?thesis by (simp add: thread_inv_def)
  next
    case (Some l)
    with d have "l \<noteq> i" by simp
    with b Some show ?thesis
      by (simp add: thread_inv_def add on_session_simps) (simp add: sent_def)
  qed
  have len': "length (exchanges w0) \<le> length (exchanges ?w)"
    using len by (simp add: sent_def)
  have mem': "\<forall>x \<in> set (added w0 ?w). Some i = Some (fst x) \<or> ob = Some (fst x)"
    using mem by (simp add: add)
  have cnt': "next_id ?w =
      next_id w0 + (case Some i of None \<Rightarrow> 0 | Some i \<Rightarrow> 1)
        + (case ob of None \<Rightarrow> 0 | Some i \<Rightarrow> 1)"
    using cnt by (simp add: sent_def)
  from a' b' d len' mem' cnt' show ?thesis
    unfolding Send j pair_inv_def by simp
qed

lemma pair_inv_step_left:
  assumes "pair_inv net fresh RA TA RB TB w0 pa pb w oa ob"
  shows "\<exists>oa'. pair_inv net fresh RA TA RB TB w0 (fst (step net fresh pa w)) pb
           (snd (step net fresh pa w)) oa' ob"
proof (cases oa)
  case None
  with assms pair_inv_create [of net fresh RA TA RB TB w0 pa pb w ob] show ?thesis by blast
next
  case (Some i)
  with assms pair_inv_send [of net fresh RA TA RB TB w0 pa pb w i ob] show ?thesis by blast
qed

lemma pair_inv_sym:
  "pair_inv net fresh RA TA RB TB w0 pa pb w oa ob \<Longrightarrow>
   pair_inv net fresh RB TB RA TA w0 pb pa w ob oa"
  unfolding pair_inv_def by auto

lemma pair_inv_step_right:
  assumes "pair_inv net fresh RA TA RB TB w0 pa pb w oa ob"
  shows "\<exists>ob'. pair_inv net fresh RA TA RB TB w0 pa (fst (step net fresh pb w))
           (snd (step net fresh pb w)) oa ob'"
proof -
  from pair_inv_step_left [OF pair_inv_sym [OF assms]]
  obtain ob' where "pair_inv net fresh RB TB RA TA w0 (fst (step net fresh pb w)) pa
           (snd (step net fresh pb w)) ob' oa"
    by blast
  from pair_inv_sym [OF this] show ?thesis by blast
qed

lemma pair_inv_interleave:
  assumes "pair_inv net fresh RA TA RB TB w0 pa pb w oa ob"
    and "interleave net fresh sched (pa, pb, w) = (pa', pb', w')"
  shows "\<exists>oa' ob'. pair_inv net fresh RA TA RB TB w0 pa' pb' w' oa' ob'"
  using assms
proof (induction sched arbitrary: pa pb w oa ob)
  case Nil
  then show ?case by auto
next
  case (Cons first sched)
  show ?case
  proof (cases first)
    case True
    with Cons.prems(2)
    have run: "interleave net fresh sched
            (fst (step net fresh pa w), pb, snd (step net fresh pa w)) = (pa', pb', w')"
      by simp
    from pair_inv_step_left [OF Cons.prems(1)] obtain oa' where
      "pair_inv net fresh RA TA RB TB w0 (fst (step net fresh pa w)) pb
           (snd (step net fresh pa w)) oa' ob"
      by blast
    from Cons.IH [OF this run] show ?thesis .
  next
    case False
    with Cons.prems(2)
    have run: "interleave net fresh sched
            (pa, fst (step net fresh pb w), snd (step net fresh pb w)) = (pa', pb', w')"
      by simp
    from pair_inv_step_right [OF Cons.prems(1)] obtain ob' where
      "pair_inv net fresh RA TA RB TB w0 pa (fst (step net fresh pb w))
           (snd (step net fresh pb w)) oa ob'"
      by blast
    from Cons.IH [OF this run] show ?thesis .
  qed
qed

text \<open>What the invariant says of a program that has finished.\<close>

lemma thread_inv_result:
  "thread_inv net fresh R T w0 p w own \<Longrightarrow> outcome p = Some r \<Longrightarrow> r = R"
  by (cases own) (auto simp: thread_inv_def dest: outcome_run_on)

lemma thread_inv_finished:
  assumes "thread_inv net fresh R T w0 p w own" and "outcome p \<noteq> None"
  shows "\<exists>i. own = Some i \<and> next_id w0 \<le> i \<and> i < next_id w \<and> on_session i (added w0 w) = T"
proof (cases own)
  case None
  with assms show ?thesis by (auto simp: thread_inv_def)
next
  case (Some i)
  with assms outcome_trace_on [OF assms(2), of net "sessions w i"] show ?thesis
    by (simp add: thread_inv_def)
qed

lemma finishes_step:
  "finishes_within p n \<Longrightarrow> finishes_within (fst (step net fresh p w)) (n - 1)"
  by (cases p; cases n) auto

lemma finishes_0: "finishes_within p 0 \<Longrightarrow> outcome p \<noteq> None"
  by (cases p) auto

lemma finishes_interleave:
  assumes "interleave net fresh sched (pa, pb, w) = (pa', pb', w')"
  shows "(finishes_within pa n \<longrightarrow> finishes_within pa' (n - length (filter id sched))) \<and>
         (finishes_within pb m \<longrightarrow> finishes_within pb' (m - length (filter Not sched)))"
  using assms
proof (induction sched arbitrary: pa pb w n m)
  case Nil
  then show ?case by simp
next
  case (Cons first sched)
  show ?case
  proof (cases first)
    case True
    with Cons.prems
    have i: "interleave net fresh sched
               (fst (step net fresh pa w), pb, snd (step net fresh pa w)) = (pa', pb', w')"
      by simp
    from Cons.IH [OF i, of "n - 1" m] True finishes_step [of pa n net fresh w]
    show ?thesis by auto
  next
    case False
    with Cons.prems
    have i: "interleave net fresh sched
               (pa, fst (step net fresh pb w), snd (step net fresh pb w)) = (pa', pb', w')"
      by simp
    from Cons.IH [OF i, of n "m - 1"] False finishes_step [of pb m net fresh w]
    show ?thesis by auto
  qed
qed

text \<open>The navigator has the shape the invariant asks for.\<close>

lemma confined_lift: "(\<And>x. confined i (k x)) \<Longrightarrow> confined i (lift v k)"
  by (cases v) simp_all

lemma confined_reraise: "confined i p \<Longrightarrow> confined i (try_except p Raise)"
  by (induction p) simp_all

lemma run_on_lift:
  "run_on net (lift v k) s = (case v of Inl e \<Rightarrow> Inl e | Inr x \<Rightarrow> run_on net (k x) s)"
  by (cases v) simp_all

lemma run_on_reraise: "run_on net (try_except p Raise) s = run_on net p s"
  by (induction p arbitrary: s) simp_all

lemma trace_on_lift:
  "trace_on net (lift v k) s = (case v of Inl e \<Rightarrow> [] | Inr x \<Rightarrow> trace_on net (k x) s)"
  by (cases v) simp_all

lemma trace_on_reraise: "trace_on net (try_except p Raise) s = trace_on net p s"
  by (induction p arbitrary: s) simp_all

lemma finishes_lift: "(\<And>x. finishes_within (k x) n) \<Longrightarrow> finishes_within (lift v k) n"
  by (cases v) simp_all

lemma finishes_reraise: "finishes_within p n \<Longrightarrow> finishes_within (try_except p Raise) n"
  by (induction p arbitrary: n) (simp_all split: nat.splits)

lemma nav_shape:
  "\<exists>k. get_tse_details_html BS c = NewSession k \<and>
       (\<forall>i. confined i (k i) \<and> run_on net (k i) s = run_on net (k 0) s \<and>
            trace_on net (k i) s = trace_on net (k 0) s)"
  unfolding get_tse_details_html_def session_get_def session_post_def
  by (simp add: confined_reraise confined_lift run_on_reraise run_on_lift
        trace_on_reraise trace_on_lift split: sum.splits)

lemma nav_finishes: "finishes_within (get_tse_details_html BS c) 4"
  unfolding get_tse_details_html_def session_get_def session_post_def
  by (simp add: finishes_reraise finishes_lift)

lemma nav_thread_inv:
  "thread_inv net fresh
     (fst (exec net fresh (get_tse_details_html BS c) v))
     (map snd (performed net fresh (get_tse_details_html BS c) v))
     w0 (get_tse_details_html BS c) w None"
proof -
  obtain k where k: "get_tse_details_html BS c = NewSession k"
    and c: "\<And>i. confined i (k i)"
    and u: "\<And>i. run_on net (k i) fresh = run_on net (k 0) fresh"
    and t: "\<And>i. trace_on net (k i) fresh = trace_on net (k 0) fresh"
    using nav_shape [of BS c net fresh] by auto
  have "fst (exec net fresh (NewSession k) v) = run_on net (k (next_id v)) fresh"
    using c by (simp add: exec_run_on [of "next_id v"] new_session_def)
  then have r: "fst (exec net fresh (NewSession k) v) = run_on net (k 0) fresh"
    using u by simp
  have "exchanges (snd (exec net fresh (NewSession k) v)) =
          exchanges v @ map (Pair (next_id v)) (trace_on net (k (next_id v)) fresh)"
    using c by (simp add: exec_trace_on [of "next_id v"] new_session_def)
  then have "map snd (performed net fresh (NewSession k) v) = trace_on net (k (next_id v)) fresh"
    by (simp add: performed_def comp_def)
  then have p: "map snd (performed net fresh (NewSession k) v) = trace_on net (k 0) fresh"
    using t by simp
  show ?thesis
    unfolding k thread_inv_def using c u t r p by simp
qed

lemma nav_own_session:
  "(i, r, out) \<in> set (performed net fresh (get_tse_details_html BS c) w) \<Longrightarrow> i = next_id w"
  unfolding nav_performed Let_def by (auto split: sum.splits)

lemma nav_other_sessions:
  "j \<noteq> next_id w \<Longrightarrow>
   sessions (snd (exec net fresh (get_tse_details_html BS c) w)) j = sessions w j"
  unfolding nav_exec Let_def by (simp add: sent_def new_session_def split: sum.splits)

lemma nav_creates_session:
  "next_id (snd (exec net fresh (get_tse_details_html BS c) w)) = Suc (next_id w)"
  unfolding nav_exec Let_def by (simp add: sent_def new_session_def split: sum.splits)

lemma nav_first_exchange:
  "\<exists>rest. performed net fresh (get_tse_details_html BS c) w =
     (next_id w, get_request search_url, fst (net fresh (get_request search_url))) # rest"
  unfolding nav_performed Let_def by (simp split: sum.splits)

lemma nav_document_is_last_response:
  assumes "fst (exec net fresh (get_tse_details_html BS c) w) = Inr doc"
  shows "\<exists>r resp. last (performed net fresh (get_tse_details_html BS c) w)
                    = (next_id w, r, Inr resp) \<and> doc = resp_text resp"
  using assms unfolding nav_performed nav_result Let_def
  by (auto simp: final_page_Inr split: sum.splits)


section \<open>The navigator's dialogue\<close>

text \<open>
  C1. The specification asks the navigator to abort, before the next request, whenever
  the three hidden fields extracted from a response are all empty. The program has no
  such check. What holds instead: if the fields extracted from the response of the first
  exchange are all empty, the second exchange still takes place, on the same session, and
  its request carries the three fields with empty values; if those extracted from the
  response of the second exchange are all empty, the third exchange takes place with the
  three fields empty, it is the last one, and the navigator's result is what the third
  response yields: its text, or the exception of its status check or of the transport.
\<close>

theorem empty_tokens_do_not_abort:
  "(\<forall>i r out rest.
      performed net fresh (get_tse_details_html BS cedula) w = (i, r, out) # rest \<and>
      page_tokens BS out = Inr empty_tokens \<longrightarrow>
      (\<exists>out2 rest2.
         rest = (i, \<lparr>verb = POST,
                      url = ''https://servicioselectorales.tse.go.cr/chc/consulta_cedula.aspx'',
                      data = Some ([(''txtcedula'', cedula), (''btnConsultaCedula'', ''Consultar'')]
                                     @ empty_tokens),
                      timeout = None\<rparr>, out2) # rest2)) \<and>
   (\<forall>first i r out rest.
      performed net fresh (get_tse_details_html BS cedula) w = first # (i, r, out) # rest \<and>
      page_tokens BS out = Inr empty_tokens \<longrightarrow>
      (\<exists>out3.
         rest = [(i, \<lparr>verb = POST,
                       url = ''https://servicioselectorales.tse.go.cr/chc/resultado_persona.aspx'',
                       data = Some ([(''__EVENTTARGET'', ''LinkButton11''),
                                     (''__EVENTARGUMENT'', '''')] @ empty_tokens),
                       timeout = None\<rparr>, out3)] \<and>
         fst (exec net fresh (get_tse_details_html BS cedula) w) = final_page out3))"
  unfolding nav_performed nav_result Let_def
  by (auto simp: request_literals split: sum.splits)

text \<open>
  On the registry site, the identifier \<open>0\<close> is answered by a page without hidden
  inputs; the third request goes out with empty fields and its page is returned.
\<close>

theorem empty_tokens_do_not_abort_witness:
  "performed mock_net '''' (get_tse_details_html mock_BeautifulSoup ''0'') world0 =
     [(0, \<lparr>verb = GET,
            url = ''https://servicioselectorales.tse.go.cr/chc/consulta_cedula.aspx'',
            data = None, timeout = None\<rparr>,
       Inr (page ''form'')),
      (0, \<lparr>verb = POST,
            url = ''https://servicioselectorales.tse.go.cr/chc/consulta_cedula.aspx'',
            data = Some [(''txtcedula'', ''0''), (''btnConsultaCedula'', ''Consultar''),
                         (''__VIEWSTATE'', ''vs-form''), (''__VIEWSTATEGENERATOR'', ''vg-form''),
                         (''__EVENTVALIDATION'', ''ev-form'')],
            timeout = None\<rparr>,
       Inr (page ''oops'')),
      (0, \<lparr>verb = POST,
            url = ''https://servicioselectorales.tse.go.cr/chc/resultado_persona.aspx'',
            data = Some ([(''__EVENTTARGET'', ''LinkButton11''), (''__EVENTARGUMENT'', '''')]
                           @ empty_tokens),
            timeout = None\<rparr>,
       Inr (page ''no such person''))] \<and>
   page_tokens mock_BeautifulSoup (Inr (page ''oops'')) = Inr empty_tokens \<and>
   fst (exec mock_net '''' (get_tse_details_html mock_BeautifulSoup ''0'') world0) =
     final_page (Inr (page ''no such person''))"
  using empty_tokens_do_not_abort [of mock_net "''''" mock_BeautifulSoup "''0''" world0]
  by (simp add: performed_def page_tokens_def final_page_def empty_tokens_def model_defs mock_defs)

text \<open>
  Against C1 as the specification states it: the response of the second exchange yields
  three empty fields, yet the details endpoint is called and a document is returned.
\<close>

theorem empty_tokens_counterexample:
  "page_tokens mock_BeautifulSoup (Inr (page ''oops'')) =
     Inr [(''__VIEWSTATE'', ''''), (''__VIEWSTATEGENERATOR'', ''''), (''__EVENTVALIDATION'', '''')] \<and>
   exchanges (snd (exec mock_net '''' (get_tse_details_html mock_BeautifulSoup ''0'') world0)) =
     [(0, \<lparr>verb = GET,
            url = ''https://servicioselectorales.tse.go.cr/chc/consulta_cedula.aspx'',
            data = None, timeout = None\<rparr>,
       Inr (page ''form'')),
      (0, \<lparr>verb = POST,
            url = ''https://servicioselectorales.tse.go.cr/chc/consulta_cedula.aspx'',
            data = Some [(''txtcedula'', ''0''), (''btnConsultaCedula'', ''Consultar''),
                         (''__VIEWSTATE'', ''vs-form''), (''__VIEWSTATEGENERATOR'', ''vg-form''),
                         (''__EVENTVALIDATION'', ''ev-form'')],
            timeout = None\<rparr>,
       Inr (page ''oops'')),
      (0, \<lparr>verb = POST,
            url = ''https://servicioselectorales.tse.go.cr/chc/resultado_persona.aspx'',
            data = Some [(''__EVENTTARGET'', ''LinkButton11''), (''__EVENTARGUMENT'', ''''),
                         (''__VIEWSTATE'', ''''), (''__VIEWSTATEGENERATOR'', ''''),
                         (''__EVENTVALIDATION'', '''')],
            timeout = None\<rparr>,
       Inr (page ''no such person''))] \<and>
   fst (exec mock_net '''' (get_tse_details_html mock_BeautifulSoup ''0'') world0) =
     Inr ''no such person''"
  by (simp add: page_tokens_def model_defs mock_defs)





text \<open>
  C3. Every lookup constructs its own session at its start and uses it. Run alone on any
  world, a lookup creates one session, of an identity not in use before; its first
  request, the GET of the search page, is sent on that session and answered from the
  state of a newly made session; every further exchange is on that session; the state of
  every other session is left as it was; and the document it returns is the text of the
  last response it received on that session.

  The transport answers a request from the state of the session it is sent on. Then two
  lookups whose steps are interleaved in any order on one world do not affect each other.
  Whenever one of them has finished, its result is the result it has when run alone, and
  there is a session created during the run on which the record shows exactly the
  exchanges, requests and answers, of that lookup run alone. When both have finished,
  their two sessions differ, they are the only sessions created, and every exchange
  added to the record is on one of the two. Four steps of a lookup are enough for it to
  finish.
\<close>

theorem lookups_isolated:
  assumes "interleave net fresh sched
             (get_tse_details_html BS a, get_tse_details_html BS b, w) = (pa, pb, w')"
  shows "next_id (snd (exec net fresh (get_tse_details_html BS a) wa)) = Suc (next_id wa) \<and>
         (\<exists>rest. performed net fresh (get_tse_details_html BS a) wa =
            (next_id wa,
             \<lparr>verb = GET,
               url = ''https://servicioselectorales.tse.go.cr/chc/consulta_cedula.aspx'',
               data = None, timeout = None\<rparr>,
             fst (net fresh
               \<lparr>verb = GET,
                 url = ''https://servicioselectorales.tse.go.cr/chc/consulta_cedula.aspx'',
                 data = None, timeout = None\<rparr>)) # rest \<and>
            (\<forall>x \<in> set rest. fst x = next_id wa)) \<and>
         (\<forall>j. j \<noteq> next_id wa \<longrightarrow>
            sessions (snd (exec net fresh (get_tse_details_html BS a) wa)) j = sessions wa j) \<and>
         (\<forall>doc. fst (exec net fresh (get_tse_details_html BS a) wa) = Inr doc \<longrightarrow>
            (\<exists>r resp. last (performed net fresh (get_tse_details_html BS a) wa)
                         = (next_id wa, r, Inr resp) \<and> doc = resp_text resp)) \<and>
         (\<forall>ra. outcome pa = Some ra \<longrightarrow>
            ra = fst (exec net fresh (get_tse_details_html BS a) wa) \<and>
            (\<exists>ia. next_id w \<le> ia \<and> ia < next_id w' \<and>
               on_session ia (added w w') =
                 map snd (performed net fresh (get_tse_details_html BS a) wa))) \<and>
         (\<forall>rb. outcome pb = Some rb \<longrightarrow>
            rb = fst (exec net fresh (get_tse_details_html BS b) wb) \<and>
            (\<exists>ib. next_id w \<le> ib \<and> ib < next_id w' \<and>
               on_session ib (added w w') =
                 map snd (performed net fresh (get_tse_details_html BS b) wb))) \<and>
         (outcome pa \<noteq> None \<and> outcome pb \<noteq> None \<longrightarrow>
            (\<exists>ia ib. ia \<noteq> ib \<and> next_id w \<le> ia \<and> next_id w \<le> ib \<and>
               next_id w' = next_id w + 2 \<and>
               on_session ia (added w w') =
                 map snd (performed net fresh (get_tse_details_html BS a) wa) \<and>
               on_session ib (added w w') =
                 map snd (performed net fresh (get_tse_details_html BS b) wb) \<and>
               (\<forall>x \<in> set (added w w'). fst x = ia \<or> fst x = ib))) \<and>
         (4 \<le> length (filter id sched) \<longrightarrow> outcome pa \<noteq> None) \<and>
         (4 \<le> length (filter Not sched) \<longrightarrow> outcome pb \<noteq> None)"
proof -
  let ?A = "get_tse_details_html BS a" and ?B = "get_tse_details_html BS b"
  let ?RA = "fst (exec net fresh ?A wa)" and ?RB = "fst (exec net fresh ?B wb)"
  let ?TA = "map snd (performed net fresh ?A wa)"
  let ?TB = "map snd (performed net fresh ?B wb)"
  let ?get = "\<lparr>verb = GET,
               url = ''https://servicioselectorales.tse.go.cr/chc/consulta_cedula.aspx'',
               data = None, timeout = None\<rparr>"
  have created: "next_id (snd (exec net fresh ?A wa)) = Suc (next_id wa)"
    by (rule nav_creates_session)
  obtain rest where rest: "performed net fresh ?A wa =
      (next_id wa, get_request search_url, fst (net fresh (get_request search_url))) # rest"
    using nav_first_exchange [of net fresh BS a wa] by blast
  have "\<forall>x \<in> set rest. fst x = next_id wa"
  proof
    fix x assume "x \<in> set rest"
    then have "(fst x, fst (snd x), snd (snd x)) \<in> set (performed net fresh ?A wa)"
      unfolding rest by simp
    then show "fst x = next_id wa" by (rule nav_own_session)
  qed
  with rest have first: "\<exists>rest. performed net fresh ?A wa =
      (next_id wa, ?get, fst (net fresh ?get)) # rest \<and> (\<forall>x \<in> set rest. fst x = next_id wa)"
    by (simp add: get_request_def search_url_def base_url_def)
  have others: "\<forall>j. j \<noteq> next_id wa \<longrightarrow> sessions (snd (exec net fresh ?A wa)) j = sessions wa j"
    using nav_other_sessions [of _ wa net fresh BS a] by blast
  have doc: "\<forall>doc. ?RA = Inr doc \<longrightarrow>
      (\<exists>r resp. last (performed net fresh ?A wa) = (next_id wa, r, Inr resp) \<and>
                 doc = resp_text resp)"
    using nav_document_is_last_response [of net fresh BS a wa] by blast
  have ia: "thread_inv net fresh ?RA ?TA w ?A w None" by (rule nav_thread_inv)
  have ib: "thread_inv net fresh ?RB ?TB w ?B w None" by (rule nav_thread_inv)
  have "pair_inv net fresh ?RA ?TA ?RB ?TB w ?A ?B w None None"
    unfolding pair_inv_def using ia ib by (simp add: added_def)
  from pair_inv_interleave [OF this assms]
  obtain oa ob where ta: "thread_inv net fresh ?RA ?TA w pa w' oa"
    and tb: "thread_inv net fresh ?RB ?TB w pb w' ob"
    and dis: "\<forall>i. oa = Some i \<longrightarrow> ob \<noteq> Some i"
    and mem: "\<forall>x \<in> set (added w w'). oa = Some (fst x) \<or> ob = Some (fst x)"
    and cnt: "next_id w' = next_id w + (case oa of None \<Rightarrow> 0 | Some i \<Rightarrow> 1)
                + (case ob of None \<Rightarrow> 0 | Some i \<Rightarrow> 1)"
    unfolding pair_inv_def by blast
  have fa: "\<exists>i. oa = Some i \<and> next_id w \<le> i \<and> i < next_id w' \<and> on_session i (added w w') = ?TA"
    if "outcome pa \<noteq> None"
    using thread_inv_finished [OF ta that] .
  have fb: "\<exists>i. ob = Some i \<and> next_id w \<le> i \<and> i < next_id w' \<and> on_session i (added w w') = ?TB"
    if "outcome pb \<noteq> None"
    using thread_inv_finished [OF tb that] .
  have ra: "\<forall>ra. outcome pa = Some ra \<longrightarrow> ra = ?RA \<and>
      (\<exists>ia. next_id w \<le> ia \<and> ia < next_id w' \<and> on_session ia (added w w') = ?TA)"
    using thread_inv_result [OF ta] fa by fastforce
  have rb: "\<forall>rb. outcome pb = Some rb \<longrightarrow> rb = ?RB \<and>
      (\<exists>ib. next_id w \<le> ib \<and> ib < next_id w' \<and> on_session ib (added w w') = ?TB)"
    using thread_inv_result [OF tb] fb by fastforce
  have both: "\<exists>ia ib. ia \<noteq> ib \<and> next_id w \<le> ia \<and> next_id w \<le> ib \<and>
      next_id w' = next_id w + 2 \<and>
      on_session ia (added w w') = ?TA \<and> on_session ib (added w w') = ?TB \<and>
      (\<forall>x \<in> set (added w w'). fst x = ia \<or> fst x = ib)"
    if "outcome pa \<noteq> None" and "outcome pb \<noteq> None"
  proof -
    from fa [OF that(1)] obtain i where i: "oa = Some i" "next_id w \<le> i"
      "on_session i (added w w') = ?TA" by blast
    from fb [OF that(2)] obtain j where j: "ob = Some j" "next_id w \<le> j"
      "on_session j (added w w') = ?TB" by blast
    from dis i(1) j(1) have "i \<noteq> j" by simp
    moreover from cnt i(1) j(1) have "next_id w' = next_id w + 2" by simp
    moreover from mem i(1) j(1) have "\<forall>x \<in> set (added w w'). fst x = i \<or> fst x = j"
      by auto
    ultimately show ?thesis using i j by blast
  qed
  have f: "finishes_within pa (4 - length (filter id sched)) \<and>
           finishes_within pb (4 - length (filter Not sched))"
    using finishes_interleave [OF assms, of 4 4] nav_finishes [of BS a] nav_finishes [of BS b]
    by simp
  have fin_a: "4 \<le> length (filter id sched) \<longrightarrow> outcome pa \<noteq> None"
    using f finishes_0 [of pa] by auto
  have fin_b: "4 \<le> length (filter Not sched) \<longrightarrow> outcome pb \<noteq> None"
    using f finishes_0 [of pb] by auto
  from both have both': "outcome pa \<noteq> None \<and> outcome pb \<noteq> None \<longrightarrow>
      (\<exists>ia ib. ia \<noteq> ib \<and> next_id w \<le> ia \<and> next_id w \<le> ib \<and>
      next_id w' = next_id w + 2 \<and>
      on_session ia (added w w') = ?TA \<and> on_session ib (added w w') = ?TB \<and>
      (\<forall>x \<in> set (added w w'). fst x = ia \<or> fst x = ib))"
    by blast
  show ?thesis
    by (intro conjI created first others doc ra rb both' fin_a fin_b)
qed

text \<open>
  Two lookups on the registry site, for the persons \<open>1\<close> and \<open>2\<close>, their steps
  interleaved: each ends with the page of its own person, and the record shows the
  exchanges of the two, each on its own session.
\<close>

theorem lookups_isolated_witness:
  "interleave mock_net '''' [True, False, False, True, True, False, False, True]
     (get_tse_details_html mock_BeautifulSoup ''1'',
      get_tse_details_html mock_BeautifulSoup ''2'', world0) =
   (Return '' si '', Return ''no'',
    snd (snd (interleave mock_net '''' [True, False, False, True, True, False, False, True]
     (get_tse_details_html mock_BeautifulSoup ''1'',
      get_tse_details_html mock_BeautifulSoup ''2'', world0)))) \<and>
   fst (exec mock_net '''' (get_tse_details_html mock_BeautifulSoup ''1'') world0) = Inr '' si '' \<and>
   fst (exec mock_net '''' (get_tse_details_html mock_BeautifulSoup ''2'') world0) = Inr ''no'' \<and>
   map (\<lambda>x. (fst x, verb (fst (snd x)), url (fst (snd x)), snd (snd x)))
     (exchanges (snd (snd (interleave mock_net ''''
        [True, False, False, True, True, False, False, True]
        (get_tse_details_html mock_BeautifulSoup ''1'',
         get_tse_details_html mock_BeautifulSoup ''2'', world0))))) =
     [(1, GET, ''https://servicioselectorales.tse.go.cr/chc/consulta_cedula.aspx'',
       Inr (page ''form'')),
      (0, GET, ''https://servicioselectorales.tse.go.cr/chc/consulta_cedula.aspx'',
       Inr (page ''form'')),
      (0, POST, ''https://servicioselectorales.tse.go.cr/chc/consulta_cedula.aspx'',
       Inr (page ''results'')),
      (1, POST, ''https://servicioselectorales.tse.go.cr/chc/consulta_cedula.aspx'',
       Inr (page ''results'')),
      (1, POST, ''https://servicioselectorales.tse.go.cr/chc/resultado_persona.aspx'',
       Inr (page ''no'')),
      (0, POST, ''https://servicioselectorales.tse.go.cr/chc/resultado_persona.aspx'',
       Inr (page '' si ''))]"
proof -
  have run: "interleave mock_net '''' [True, False, False, True, True, False, False, True]
     (get_tse_details_html mock_BeautifulSoup ''1'',
      get_tse_details_html mock_BeautifulSoup ''2'', world0) =
   (Return '' si '', Return ''no'',
    snd (snd (interleave mock_net '''' [True, False, False, True, True, False, False, True]
     (get_tse_details_html mock_BeautifulSoup ''1'',
      get_tse_details_html mock_BeautifulSoup ''2'', world0))))"
    by (simp add: prod_eq_iff model_defs mock_defs)
  have shown: "map (\<lambda>x. (fst x, verb (fst (snd x)), url (fst (snd x)), snd (snd x)))
     (exchanges (snd (snd (interleave mock_net ''''
        [True, False, False, True, True, False, False, True]
        (get_tse_details_html mock_BeautifulSoup ''1'',
         get_tse_details_html mock_BeautifulSoup ''2'', world0))))) =
     [(1, GET, ''https://servicioselectorales.tse.go.cr/chc/consulta_cedula.aspx'',
       Inr (page ''form'')),
      (0, GET, ''https://servicioselectorales.tse.go.cr/chc/consulta_cedula.aspx'',
       Inr (page ''form'')),
      (0, POST, ''https://servicioselectorales.tse.go.cr/chc/consulta_cedula.aspx'',
       Inr (page ''results'')),
      (1, POST, ''https://servicioselectorales.tse.go.cr/chc/consulta_cedula.aspx'',
       Inr (page ''results'')),
      (1, POST, ''https://servicioselectorales.tse.go.cr/chc/resultado_persona.aspx'',
       Inr (page ''no'')),
      (0, POST, ''https://servicioselectorales.tse.go.cr/chc/resultado_persona.aspx'',
       Inr (page '' si ''))]"
    by (simp add: model_defs mock_defs)
  note isolated = lookups_isolated [OF run, of world0 world0]
  have first:
    "fst (exec mock_net '''' (get_tse_details_html mock_BeautifulSoup ''1'') world0) = Inr '' si ''"
    using isolated [THEN conjunct2, THEN conjunct2, THEN conjunct2, THEN conjunct2,
        THEN conjunct1]
    by simp
  have second:
    "fst (exec mock_net '''' (get_tse_details_html mock_BeautifulSoup ''2'') world0) = Inr ''no''"
    using isolated [THEN conjunct2, THEN conjunct2, THEN conjunct2, THEN conjunct2,
        THEN conjunct2, THEN conjunct1]
    by simp
  from run first second shown show ?thesis
    by blast
qed


section \<open>The facade and the route\<close>

text \<open>
  C4. The specification places the check for a missing identifier in the facade and
  names the failure \<^verbatim>\<open>missing identifier\<close>. In the program the check is in the
  route handler: when the \<^verbatim>\<open>cedula\<close> parameter is absent or empty,
  \<^verbatim>\<open>check_cedula\<close> answers with the body \<^verbatim>\<open>{"error": "Missing 'cedula' parameter"}\<close>
  and status 400, without calling the facade: no exchange takes place and the world is
  unchanged.
\<close>

theorem missing_identifier_rejected_by_route:
  assumes "cedula = None \<or> cedula = Some ''''"
  shows "exec net fresh (check_cedula uc BS cedula) w =
           (Inr ([(''error'', PyStr ''Missing 'cedula' parameter'')], 400), w) \<and>
         performed net fresh (check_cedula uc BS cedula) w = []"
  using assms by (auto simp: check_cedula_def performed_def)

theorem missing_identifier_rejected_by_route_witness:
  "exec mock_net '''' (check_cedula mock_toupper mock_BeautifulSoup None) world0 =
     (Inr ([(''error'', PyStr ''Missing 'cedula' parameter'')], 400), world0) \<and>
   performed mock_net '''' (check_cedula mock_toupper mock_BeautifulSoup None) world0 = [] \<and>
   exec mock_net '''' (check_cedula mock_toupper mock_BeautifulSoup (Some '''')) world0 =
     (Inr ([(''error'', PyStr ''Missing 'cedula' parameter'')], 400), world0) \<and>
   performed mock_net '''' (check_cedula mock_toupper mock_BeautifulSoup (Some '''')) world0 = []"
  using missing_identifier_rejected_by_route [of None mock_net "''''" mock_toupper mock_BeautifulSoup world0]
    missing_identifier_rejected_by_route [of "Some ''''" mock_net "''''" mock_toupper mock_BeautifulSoup world0]
  by simp

text \<open>
  Against C4 as the specification states it: the route's failure does not read
  \<^verbatim>\<open>missing identifier\<close>, and the facade, given the empty identifier, validates
  nothing: it goes through the three exchanges.
\<close>

theorem missing_identifier_counterexample:
  "fst (exec mock_net '''' (check_cedula mock_toupper mock_BeautifulSoup None) world0) \<noteq>
     Inr ([(''error'', PyStr ''missing identifier'')], 400) \<and>
   fst (exec mock_net '''' (check_fallecido mock_toupper mock_BeautifulSoup '''') world0) \<noteq>
     Inr [(''error'', PyStr ''missing identifier'')] \<and>
   length (exchanges (snd (exec mock_net '''' (check_fallecido mock_toupper mock_BeautifulSoup '''') world0))) = 3"
  by (simp add: model_defs mock_defs)

text \<open>
  C5. Whatever the identifier, the transport and the parser do, the facade returns a
  dictionary and raises nothing: the result is the success dictionary with
  \<^verbatim>\<open>fallecido\<close> true or false, or a dictionary with the single key
  \<^verbatim>\<open>error\<close>. An exception raised by the navigator (by the transport, by a status
  check, by the extraction) or by the parser of the last page is turned into the error
  dictionary carrying its message.
\<close>

theorem facade_never_raises:
  "\<exists>d. fst (exec net fresh (check_fallecido uc BS cedula) w) = Inr d \<and>
       (d = [(''fallecido'', PyBool True), (''cedula'', PyStr cedula)] \<or>
        d = [(''fallecido'', PyBool False), (''cedula'', PyStr cedula)] \<or>
        (\<exists>m. d = [(''error'', PyStr m)])) \<and>
       (\<forall>e. fst (exec net fresh (get_tse_details_html BS cedula) w) = Inl e \<longrightarrow>
            d = [(''error'', PyStr (str_exn e))]) \<and>
       (\<forall>html e. fst (exec net fresh (get_tse_details_html BS cedula) w) = Inr html \<and>
                 BS (Str html) = Inl e \<longrightarrow>
            d = [(''error'', PyStr (str_exn e))])"
proof -
  obtain w' where c:
    "exec net fresh (check_fallecido uc BS cedula) w =
       (Inr [(''fallecido'', PyBool True), (''cedula'', PyStr cedula)], w') \<or>
     exec net fresh (check_fallecido uc BS cedula) w =
       (Inr [(''fallecido'', PyBool False), (''cedula'', PyStr cedula)], w') \<or>
     (\<exists>m. exec net fresh (check_fallecido uc BS cedula) w = (Inr [(''error'', PyStr m)], w'))"
    using facade_cases [of net fresh uc BS cedula w] by blast
  then obtain d where d: "fst (exec net fresh (check_fallecido uc BS cedula) w) = Inr d"
    "d = [(''fallecido'', PyBool True), (''cedula'', PyStr cedula)] \<or>
     d = [(''fallecido'', PyBool False), (''cedula'', PyStr cedula)] \<or>
     (\<exists>m. d = [(''error'', PyStr m)])"
    by auto
  have r: "d = [(''error'', PyStr (str_exn e))]"
    if "fst (exec net fresh (get_tse_details_html BS cedula) w) = Inl e" for e
    using facade_of_raise [OF that] d(1) by simp
  have p: "d = [(''error'', PyStr (str_exn e))]"
    if "fst (exec net fresh (get_tse_details_html BS cedula) w) = Inr html" "BS (Str html) = Inl e"
    for html e
  proof -
    have "exec net fresh (get_tse_details_html BS cedula) w =
            (Inr html, snd (exec net fresh (get_tse_details_html BS cedula) w))"
      using that(1) by (simp add: prod_eq_iff)
    from facade_of_parse_raise [OF this that(2)] d(1) show ?thesis by simp
  qed
  from d r p show ?thesis by blast
qed

text \<open>On a site that cannot be reached, the transport's exception becomes the failure.\<close>

theorem facade_never_raises_witness:
  "fst (exec down_net '''' (get_tse_details_html mock_BeautifulSoup ''1'') world0) =
     Inl (RequestException ''connection refused'') \<and>
   fst (exec down_net '''' (check_fallecido mock_toupper mock_BeautifulSoup ''1'') world0) =
     Inr [(''error'', PyStr ''connection refused'')]"
  using facade_never_raises [of down_net "''''" mock_toupper mock_BeautifulSoup "''1''" world0]
  by (simp add: nav_result page_tokens_def down_net_def)

text \<open>
  C6. The specification has the status text normalised by trimming the element's text
  and uppercasing it. The program takes the text with \<^verbatim>\<open>get_text(strip=True)\<close>,
  which trims every string below the element on its own, drops the empty ones and joins
  the rest, and uppercases that. The two agree on an element that holds a single string,
  and differ on one whose text is spread over nested elements. What holds:
  when the navigator has returned a page, the page parses, and it contains the element
  \<^verbatim>\<open>span\<close> with id \<^verbatim>\<open>lblfallecido\<close>, the facade answers \<^verbatim>\<open>fallecido\<close> true
  exactly when the strings below the element, each trimmed, the empty ones dropped, joined
  and uppercased, give \<^verbatim>\<open>SI\<close>, and false exactly when they give \<^verbatim>\<open>NO\<close>. For an
  element that holds a single string this is the specification's normalised text; and
  if that string is \<^verbatim>\<open>SI\<close> in any case (\<^verbatim>\<open>SI\<close>, \<^verbatim>\<open>Si\<close>, \<^verbatim>\<open>sI\<close>,
  \<^verbatim>\<open>si\<close>) with any whitespace of Python's before and behind, the answer is true, and
  likewise false for \<^verbatim>\<open>NO\<close>.
\<close>

theorem status_text_decides:
  assumes "exec net fresh (get_tse_details_html BS cedula) w = (Inr html, w')"
    and "BS (Str html) = Inr soup"
    and "soup_find ''span'' [(''id'', ''lblfallecido'')] soup = Some el"
  shows "(fst (exec net fresh (check_fallecido uc BS cedula) w) =
            Inr [(''fallecido'', PyBool True), (''cedula'', PyStr cedula)]
          \<longleftrightarrow> upper uc (concat (filter (\<lambda>s. s \<noteq> [])
                (map strip (List.map_filter node_string (descendants (children el)))))) = ''SI'') \<and>
         (fst (exec net fresh (check_fallecido uc BS cedula) w) =
            Inr [(''fallecido'', PyBool False), (''cedula'', PyStr cedula)]
          \<longleftrightarrow> upper uc (concat (filter (\<lambda>s. s \<noteq> [])
                (map strip (List.map_filter node_string (descendants (children el)))))) = ''NO'') \<and>
         (\<forall>name attrs t. el = Tag name attrs [Text t] \<longrightarrow>
            (fst (exec net fresh (check_fallecido uc BS cedula) w) =
               Inr [(''fallecido'', PyBool True), (''cedula'', PyStr cedula)]
             \<longleftrightarrow> spec_normalized_text uc el = ''SI'') \<and>
            (fst (exec net fresh (check_fallecido uc BS cedula) w) =
               Inr [(''fallecido'', PyBool False), (''cedula'', PyStr cedula)]
             \<longleftrightarrow> spec_normalized_text uc el = ''NO'') \<and>
            spec_normalized_text uc el = upper uc (strip t)) \<and>
         (\<forall>name attrs ws1 ws2 word.
            el = Tag name attrs [Text (concat ws1 @ word @ concat ws2)] \<and>
            set ws1 \<subseteq> set python_whitespace \<and> set ws2 \<subseteq> set python_whitespace \<and>
            word \<in> {''SI'', ''Si'', ''sI'', ''si''} \<longrightarrow>
            fst (exec net fresh (check_fallecido uc BS cedula) w) =
              Inr [(''fallecido'', PyBool True), (''cedula'', PyStr cedula)]) \<and>
         (\<forall>name attrs ws1 ws2 word.
            el = Tag name attrs [Text (concat ws1 @ word @ concat ws2)] \<and>
            set ws1 \<subseteq> set python_whitespace \<and> set ws2 \<subseteq> set python_whitespace \<and>
            word \<in> {''NO'', ''No'', ''nO'', ''no''} \<longrightarrow>
            fst (exec net fresh (check_fallecido uc BS cedula) w) =
              Inr [(''fallecido'', PyBool False), (''cedula'', PyStr cedula)])"
proof -
  let ?result = "fst (exec net fresh (check_fallecido uc BS cedula) w)"
  let ?yes = "Inr [(''fallecido'', PyBool True), (''cedula'', PyStr cedula)]"
  let ?no = "Inr [(''fallecido'', PyBool False), (''cedula'', PyStr cedula)]"
  have yes: "?result = ?yes \<longleftrightarrow> upper uc (get_text_strip el) = ''SI''"
    and no: "?result = ?no \<longleftrightarrow> upper uc (get_text_strip el) = ''NO''"
    using facade_of_found [OF assms, of uc] by auto
  have single: "upper uc (get_text_strip el) = upper uc (strip t)"
      "spec_normalized_text uc el = upper uc (strip t)"
    if "el = Tag name attrs [Text t]" for name attrs t
    using that
    by (simp_all add: get_text_strip_single spec_normalized_text_def element_text_single)
  have padded_yes: "?result = ?yes"
    if "el = Tag name attrs [Text (concat ws1 @ word @ concat ws2)]"
      and "set ws1 \<subseteq> set python_whitespace" and "set ws2 \<subseteq> set python_whitespace"
      and "word \<in> {''SI'', ''Si'', ''sI'', ''si''}"
    for name attrs ws1 ws2 word
  proof -
    have "strip (concat ws1 @ word @ concat ws2) = word"
      using strip_padded_si [of ws1 ws2 word] that(2-4) by blast
    with single(1) [OF that(1)] upper_si [OF that(4), of uc]
    have "upper uc (get_text_strip el) = ''SI''" by simp
    with yes show ?thesis by simp
  qed
  have padded_no: "?result = ?no"
    if "el = Tag name attrs [Text (concat ws1 @ word @ concat ws2)]"
      and "set ws1 \<subseteq> set python_whitespace" and "set ws2 \<subseteq> set python_whitespace"
      and "word \<in> {''NO'', ''No'', ''nO'', ''no''}"
    for name attrs ws1 ws2 word
  proof -
    have "strip (concat ws1 @ word @ concat ws2) = word"
      using strip_padded_si [of ws1 ws2 word] that(2-4) by blast
    with single(1) [OF that(1)] upper_no [OF that(4), of uc]
    have "upper uc (get_text_strip el) = ''NO''" by simp
    with no show ?thesis by simp
  qed
  have c1: "?result = ?yes \<longleftrightarrow> upper uc (concat (filter (\<lambda>s. s \<noteq> [])
                (map strip (List.map_filter node_string (descendants (children el)))))) = ''SI''"
    using yes by (simp add: get_text_strip_def)
  have c2: "?result = ?no \<longleftrightarrow> upper uc (concat (filter (\<lambda>s. s \<noteq> [])
                (map strip (List.map_filter node_string (descendants (children el)))))) = ''NO''"
    using no by (simp add: get_text_strip_def)
  have c3: "\<forall>name attrs t. el = Tag name attrs [Text t] \<longrightarrow>
            (?result = ?yes \<longleftrightarrow> spec_normalized_text uc el = ''SI'') \<and>
            (?result = ?no \<longleftrightarrow> spec_normalized_text uc el = ''NO'') \<and>
            spec_normalized_text uc el = upper uc (strip t)"
    using yes no single by metis
  have c4: "\<forall>name attrs ws1 ws2 word.
            el = Tag name attrs [Text (concat ws1 @ word @ concat ws2)] \<and>
            set ws1 \<subseteq> set python_whitespace \<and> set ws2 \<subseteq> set python_whitespace \<and>
            word \<in> {''SI'', ''Si'', ''sI'', ''si''} \<longrightarrow> ?result = ?yes"
    using padded_yes by blast
  have c5: "\<forall>name attrs ws1 ws2 word.
            el = Tag name attrs [Text (concat ws1 @ word @ concat ws2)] \<and>
            set ws1 \<subseteq> set python_whitespace \<and> set ws2 \<subseteq> set python_whitespace \<and>
            word \<in> {''NO'', ''No'', ''nO'', ''no''} \<longrightarrow> ?result = ?no"
    using padded_no by blast
  show ?thesis
    by (intro conjI c1 c2 c3 c4 c5)
qed

text \<open>
  The status text of person \<open>5\<close> is \<^verbatim>\<open>Si\<close> with a no-break space in front and an
  em space and a line feed behind: the answer is true.
\<close>

theorem status_text_decides_witness:
  "exec mock_net '''' (get_tse_details_html mock_BeautifulSoup ''5'') world0 =
     (Inr ([CHR 0xC2, CHR 0xA0] @ ''Si'' @ [CHR 0xE2, CHR 0x80, CHR 0x83, CHR 0x0A]),
      snd (exec mock_net '''' (get_tse_details_html mock_BeautifulSoup ''5'') world0)) \<and>
   mock_BeautifulSoup (Str ([CHR 0xC2, CHR 0xA0] @ ''Si'' @ [CHR 0xE2, CHR 0x80, CHR 0x83, CHR 0x0A])) =
     Inr [Tag ''span'' [(''id'', ''lblfallecido'')]
            [Text ([CHR 0xC2, CHR 0xA0] @ ''Si'' @ [CHR 0xE2, CHR 0x80, CHR 0x83, CHR 0x0A])]] \<and>
   soup_find ''span'' [(''id'', ''lblfallecido'')]
     [Tag ''span'' [(''id'', ''lblfallecido'')]
        [Text ([CHR 0xC2, CHR 0xA0] @ ''Si'' @ [CHR 0xE2, CHR 0x80, CHR 0x83, CHR 0x0A])]] =
     Some (Tag ''span'' [(''id'', ''lblfallecido'')]
        [Text ([CHR 0xC2, CHR 0xA0] @ ''Si'' @ [CHR 0xE2, CHR 0x80, CHR 0x83, CHR 0x0A])]) \<and>
   set [[CHR 0xC2, CHR 0xA0]] \<subseteq> set python_whitespace \<and>
   set [[CHR 0xE2, CHR 0x80, CHR 0x83], [CHR 0x0A]] \<subseteq> set python_whitespace \<and>
   fst (exec mock_net '''' (check_fallecido mock_toupper mock_BeautifulSoup ''5'') world0) =
     Inr [(''fallecido'', PyBool True), (''cedula'', PyStr ''5'')]"
proof -
  let ?t = "[CHR 0xC2, CHR 0xA0] @ ''Si'' @ [CHR 0xE2, CHR 0x80, CHR 0x83, CHR 0x0A]"
  have nav: "exec mock_net '''' (get_tse_details_html mock_BeautifulSoup ''5'') world0 =
     (Inr ?t, snd (exec mock_net '''' (get_tse_details_html mock_BeautifulSoup ''5'') world0))"
    by (simp add: prod_eq_iff nav_result page_tokens_def final_page_def search_request_def
          details_request_def model_defs mock_defs)
  have bs: "mock_BeautifulSoup (Str ?t) = Inr [Tag ''span'' [(''id'', ''lblfallecido'')] [Text ?t]]"
    by simp
  have el: "soup_find ''span'' [(''id'', ''lblfallecido'')]
       [Tag ''span'' [(''id'', ''lblfallecido'')] [Text ?t]]
     = Some (Tag ''span'' [(''id'', ''lblfallecido'')] [Text ?t])"
    by (simp add: soup_find_def descendants_def)
  have ws1: "set [[CHR 0xC2, CHR 0xA0]] \<subseteq> set python_whitespace"
    by (simp add: python_whitespace_def)
  have ws2: "set [[CHR 0xE2, CHR 0x80, CHR 0x83], [CHR 0x0A]] \<subseteq> set python_whitespace"
    by (simp add: python_whitespace_def)
  have shape: "Tag ''span'' [(''id'', ''lblfallecido'')] [Text ?t] =
      Tag ''span'' [(''id'', ''lblfallecido'')]
        [Text (concat [[CHR 0xC2, CHR 0xA0]] @ ''Si'' @
               concat [[CHR 0xE2, CHR 0x80, CHR 0x83], [CHR 0x0A]])]"
    by simp
  have "\<forall>name attrs ws1 ws2 word.
            Tag ''span'' [(''id'', ''lblfallecido'')] [Text ?t] =
              Tag name attrs [Text (concat ws1 @ word @ concat ws2)] \<and>
            set ws1 \<subseteq> set python_whitespace \<and> set ws2 \<subseteq> set python_whitespace \<and>
            word \<in> {''SI'', ''Si'', ''sI'', ''si''} \<longrightarrow>
            fst (exec mock_net '''' (check_fallecido mock_toupper mock_BeautifulSoup ''5'') world0) =
              Inr [(''fallecido'', PyBool True), (''cedula'', PyStr ''5'')]"
    using status_text_decides [where uc = mock_toupper, OF nav bs el] by blast
  from this [rule_format, of "''span''" "[(''id'', ''lblfallecido'')]" "[[CHR 0xC2, CHR 0xA0]]"
      "''Si''" "[[CHR 0xE2, CHR 0x80, CHR 0x83], [CHR 0x0A]]"] shape ws1 ws2
  have "fst (exec mock_net '''' (check_fallecido mock_toupper mock_BeautifulSoup ''5'') world0) =
          Inr [(''fallecido'', PyBool True), (''cedula'', PyStr ''5'')]"
    by simp
  with nav bs el ws1 ws2 show ?thesis
    by blast
qed

text \<open>
  Against C6 as the specification states it: the status element of person \<open>6\<close> is
  \<^verbatim>\<open><span id="lblfallecido">S <b>I</b></span>\<close>. Its text is \<^verbatim>\<open>S I\<close>, which
  trimmed and uppercased is \<^verbatim>\<open>S I\<close> and not \<^verbatim>\<open>SI\<close>; yet the answer is true.
\<close>

theorem status_text_counterexample:
  "fst (exec mock_net '''' (get_tse_details_html mock_BeautifulSoup ''6'') world0) =
     Inr ''S <b>I</b>'' \<and>
   mock_BeautifulSoup (Str ''S <b>I</b>'') =
     Inr [Tag ''span'' [(''id'', ''lblfallecido'')] [Text ''S '', Tag ''b'' [] [Text ''I'']]] \<and>
   soup_find ''span'' [(''id'', ''lblfallecido'')]
     [Tag ''span'' [(''id'', ''lblfallecido'')] [Text ''S '', Tag ''b'' [] [Text ''I'']]] =
     Some (Tag ''span'' [(''id'', ''lblfallecido'')] [Text ''S '', Tag ''b'' [] [Text ''I'']]) \<and>
   element_text (Tag ''span'' [(''id'', ''lblfallecido'')] [Text ''S '', Tag ''b'' [] [Text ''I'']]) =
     ''S I'' \<and>
   spec_normalized_text mock_toupper
     (Tag ''span'' [(''id'', ''lblfallecido'')] [Text ''S '', Tag ''b'' [] [Text ''I'']]) = ''S I'' \<and>
   fst (exec mock_net '''' (check_fallecido mock_toupper mock_BeautifulSoup ''6'') world0) =
     Inr [(''fallecido'', PyBool True), (''cedula'', PyStr ''6'')]"
  by (simp add: model_defs mock_defs)

text \<open>
  C7. When the normalised text of the status element, which in the program is
  \<^verbatim>\<open>get_text(strip=True).upper()\<close>, is neither \<^verbatim>\<open>SI\<close> nor
  \<^verbatim>\<open>NO\<close>, the facade returns the failure whose message is
  \<^verbatim>\<open>Unknown value for Fallecido/a: \<close> followed by the normalised text itself; nothing
  is guessed. For an element that holds a single string the normalised text is that
  string trimmed and uppercased, as the specification has it. The specification words
  the message \<^verbatim>\<open>unrecognized status value: \<close>.
\<close>

theorem unknown_status_reported:
  assumes "exec net fresh (get_tse_details_html BS cedula) w = (Inr html, w')"
    and "BS (Str html) = Inr soup"
    and "soup_find ''span'' [(''id'', ''lblfallecido'')] soup = Some el"
    and "upper uc (get_text_strip el) \<noteq> ''SI''"
    and "upper uc (get_text_strip el) \<noteq> ''NO''"
  shows "fst (exec net fresh (check_fallecido uc BS cedula) w) =
           Inr [(''error'',
                 PyStr (''Unknown value for Fallecido/a: '' @ upper uc (get_text_strip el)))] \<and>
         (\<forall>name attrs t. el = Tag name attrs [Text t] \<longrightarrow>
            upper uc (get_text_strip el) = upper uc (strip t) \<and>
            upper uc (get_text_strip el) = spec_normalized_text uc el)"
  using facade_of_found [OF assms(1-3)] assms(4,5)
  by (auto simp: get_text_strip_single spec_normalized_text_def element_text_single)

theorem unknown_status_reported_witness:
  "exec mock_net '''' (get_tse_details_html mock_BeautifulSoup ''3'') world0 =
     (Inr ''MAYBE'', snd (exec mock_net '''' (get_tse_details_html mock_BeautifulSoup ''3'') world0)) \<and>
   mock_BeautifulSoup (Str ''MAYBE'') = Inr [Tag ''span'' [(''id'', ''lblfallecido'')] [Text ''MAYBE'']] \<and>
   soup_find ''span'' [(''id'', ''lblfallecido'')] [Tag ''span'' [(''id'', ''lblfallecido'')] [Text ''MAYBE'']]
     = Some (Tag ''span'' [(''id'', ''lblfallecido'')] [Text ''MAYBE'']) \<and>
   upper mock_toupper (get_text_strip (Tag ''span'' [(''id'', ''lblfallecido'')] [Text ''MAYBE''])) = ''MAYBE'' \<and>
   fst (exec mock_net '''' (check_fallecido mock_toupper mock_BeautifulSoup ''3'') world0) =
     Inr [(''error'', PyStr ''Unknown value for Fallecido/a: MAYBE'')]"
proof -
  have nav: "exec mock_net '''' (get_tse_details_html mock_BeautifulSoup ''3'') world0 =
     (Inr ''MAYBE'', snd (exec mock_net '''' (get_tse_details_html mock_BeautifulSoup ''3'') world0))"
    by (simp add: prod_eq_iff nav_result page_tokens_def final_page_def search_request_def
          details_request_def model_defs mock_defs)
  have bs: "mock_BeautifulSoup (Str ''MAYBE'') =
      Inr [Tag ''span'' [(''id'', ''lblfallecido'')] [Text ''MAYBE'']]"
    by simp
  have el: "soup_find ''span'' [(''id'', ''lblfallecido'')]
       [Tag ''span'' [(''id'', ''lblfallecido'')] [Text ''MAYBE'']]
     = Some (Tag ''span'' [(''id'', ''lblfallecido'')] [Text ''MAYBE''])"
    by (simp add: soup_find_def descendants_def)
  have up: "upper mock_toupper (get_text_strip (Tag ''span'' [(''id'', ''lblfallecido'')] [Text ''MAYBE''])) = ''MAYBE''"
    by (simp add: model_defs)
  from unknown_status_reported [where uc = mock_toupper, OF nav bs el] nav bs el up show ?thesis
    by simp
qed

text \<open>Against C7 as the specification states it: the message for \<^verbatim>\<open>MAYBE\<close>.\<close>

theorem unknown_status_counterexample:
  "fst (exec mock_net '''' (check_fallecido mock_toupper mock_BeautifulSoup ''3'') world0) =
     Inr [(''error'', PyStr ''Unknown value for Fallecido/a: MAYBE'')] \<and>
   fst (exec mock_net '''' (check_fallecido mock_toupper mock_BeautifulSoup ''3'') world0) \<noteq>
     Inr [(''error'', PyStr ''unrecognized status value: MAYBE'')]"
  by (simp add: model_defs mock_defs)

text \<open>
  C8. When the page has no \<^verbatim>\<open>span\<close> with id \<^verbatim>\<open>lblfallecido\<close>, the facade
  returns the failure \<^verbatim>\<open>Could not find 'lblfallecido' element in HTML\<close>. The
  specification words the message \<^verbatim>\<open>status element not found\<close>.
\<close>

theorem missing_status_element_reported:
  assumes "exec net fresh (get_tse_details_html BS cedula) w = (Inr html, w')"
    and "BS (Str html) = Inr soup"
    and "soup_find ''span'' [(''id'', ''lblfallecido'')] soup = None"
  shows "fst (exec net fresh (check_fallecido uc BS cedula) w) =
           Inr [(''error'', PyStr ''Could not find 'lblfallecido' element in HTML'')]"
  using facade_of_missing [OF assms] by simp

theorem missing_status_element_reported_witness:
  "exec mock_net '''' (get_tse_details_html mock_BeautifulSoup ''4'') world0 =
     (Inr ''no such person'',
      snd (exec mock_net '''' (get_tse_details_html mock_BeautifulSoup ''4'') world0)) \<and>
   mock_BeautifulSoup (Str ''no such person'') = Inr [Tag ''p'' [] [Text ''no such person'']] \<and>
   soup_find ''span'' [(''id'', ''lblfallecido'')] [Tag ''p'' [] [Text ''no such person'']] = None \<and>
   fst (exec mock_net '''' (check_fallecido mock_toupper mock_BeautifulSoup ''4'') world0) =
     Inr [(''error'', PyStr ''Could not find 'lblfallecido' element in HTML'')]"
proof -
  have nav: "exec mock_net '''' (get_tse_details_html mock_BeautifulSoup ''4'') world0 =
     (Inr ''no such person'',
      snd (exec mock_net '''' (get_tse_details_html mock_BeautifulSoup ''4'') world0))"
    by (simp add: prod_eq_iff nav_result page_tokens_def final_page_def search_request_def
          details_request_def model_defs mock_defs)
  have bs: "mock_BeautifulSoup (Str ''no such person'') = Inr [Tag ''p'' [] [Text ''no such person'']]"
    by simp
  have el: "soup_find ''span'' [(''id'', ''lblfallecido'')] [Tag ''p'' [] [Text ''no such person'']] = None"
    by (simp add: soup_find_def descendants_def)
  from missing_status_element_reported [OF nav bs el] nav bs el show ?thesis
    by simp
qed

text \<open>Against C8 as the specification states it: the message for a page without the element.\<close>

theorem missing_status_element_counterexample:
  "soup_find ''span'' [(''id'', ''lblfallecido'')] [Tag ''p'' [] [Text ''no such person'']] = None \<and>
   fst (exec mock_net '''' (check_fallecido mock_toupper mock_BeautifulSoup ''4'') world0) \<noteq>
     Inr [(''error'', PyStr ''status element not found'')]"
  by (simp add: model_defs mock_defs)

text \<open>
  C9. The specification asks for a bounded timeout on every request. The program passes
  none: every request of a lookup is sent with the \<^verbatim>\<open>timeout\<close> argument unset. What
  holds of failures of the transport: an exception the transport raises for a request
  (a timeout would be one) ends the navigation with that exception, and the facade
  returns it as the error dictionary carrying its message.
\<close>

theorem requests_carry_no_timeout:
  "(\<forall>i r out. (i, r, out) \<in> set (performed net fresh (check_fallecido uc BS cedula) w) \<longrightarrow>
      timeout r = None) \<and>
   (\<forall>i r e. (i, r, Inl e) \<in> set (performed net fresh (check_fallecido uc BS cedula) w) \<longrightarrow>
      fst (exec net fresh (get_tse_details_html BS cedula) w) = Inl e \<and>
      fst (exec net fresh (check_fallecido uc BS cedula) w) = Inr [(''error'', PyStr (str_exn e))])"
  unfolding facade_performed
  using navigator_requests_without_timeout [of _ _ _ net fresh BS cedula w]
    transport_exception_ends_navigation [of _ _ _ net fresh BS cedula w]
    facade_of_raise [of net fresh BS cedula w]
  by (metis fst_conv)

theorem requests_carry_no_timeout_witness:
  "performed down_net '''' (check_fallecido mock_toupper mock_BeautifulSoup ''1'') world0 =
     [(0, \<lparr>verb = GET, url = search_url, data = None, timeout = None\<rparr>,
       Inl (RequestException ''connection refused''))] \<and>
   fst (exec down_net '''' (check_fallecido mock_toupper mock_BeautifulSoup ''1'') world0) =
     Inr [(''error'', PyStr ''connection refused'')]"
  using requests_carry_no_timeout [of down_net "''''" mock_toupper mock_BeautifulSoup "''1''" world0]
  by (simp add: facade_performed nav_performed page_tokens_def down_net_def world0_def
        get_request_def)

text \<open>Against C9 as the specification states it: the three requests of a lookup.\<close>

theorem requests_carry_no_timeout_counterexample:
  "exchanges (snd (exec mock_net '''' (check_fallecido mock_toupper mock_BeautifulSoup ''1'') world0)) =
     [(0, \<lparr>verb = GET, url = search_url, data = None, timeout = None\<rparr>,
       Inr (page ''form'')),
      (0, \<lparr>verb = POST, url = search_url,
           data = Some [(''txtcedula'', ''1''), (''btnConsultaCedula'', ''Consultar''),
                        (''__VIEWSTATE'', ''vs-form''), (''__VIEWSTATEGENERATOR'', ''vg-form''),
                        (''__EVENTVALIDATION'', ''ev-form'')],
           timeout = None\<rparr>,
       Inr (page ''results'')),
      (0, \<lparr>verb = POST, url = result_url,
           data = Some [(''__EVENTTARGET'', ''LinkButton11''), (''__EVENTARGUMENT'', ''''),
                        (''__VIEWSTATE'', ''vs-results''),
                        (''__VIEWSTATEGENERATOR'', ''vg-results''),
                        (''__EVENTVALIDATION'', ''ev-results'')],
           timeout = None\<rparr>,
       Inr (page '' si ''))]"
  by (simp add: model_defs mock_defs)

text \<open>
  C10. Every value the facade returns has one of two shapes that exclude each other:
  the keys \<^verbatim>\<open>fallecido\<close> (a boolean) and \<^verbatim>\<open>cedula\<close> (the identifier given) and
  no key \<^verbatim>\<open>error\<close>, or the single key \<^verbatim>\<open>error\<close> and no key
  \<^verbatim>\<open>fallecido\<close>. The route, which tests for the key \<^verbatim>\<open>error\<close>, answers the
  first with status 200 and the second with status 500, the body being the dictionary.
\<close>

theorem facade_result_shapes:
  "\<exists>d w'. exec net fresh (check_fallecido uc BS cedula) w = (Inr d, w') \<and>
     ((\<exists>b. d = [(''fallecido'', PyBool b), (''cedula'', PyStr cedula)]) \<and>
        ''error'' \<notin> set (map fst d) \<and>
        (cedula \<noteq> '''' \<longrightarrow>
           exec net fresh (check_cedula uc BS (Some cedula)) w = (Inr (d, 200), w'))
      \<or>
      (\<exists>m. d = [(''error'', PyStr m)]) \<and>
        ''fallecido'' \<notin> set (map fst d) \<and>
        (cedula \<noteq> '''' \<longrightarrow>
           exec net fresh (check_cedula uc BS (Some cedula)) w = (Inr (d, 500), w')))"
proof -
  obtain w' where c:
    "exec net fresh (check_fallecido uc BS cedula) w =
       (Inr [(''fallecido'', PyBool True), (''cedula'', PyStr cedula)], w') \<or>
     exec net fresh (check_fallecido uc BS cedula) w =
       (Inr [(''fallecido'', PyBool False), (''cedula'', PyStr cedula)], w') \<or>
     (\<exists>m. exec net fresh (check_fallecido uc BS cedula) w = (Inr [(''error'', PyStr m)], w'))"
    using facade_cases [of net fresh uc BS cedula w] by blast
  then consider
    (yes) "exec net fresh (check_fallecido uc BS cedula) w =
       (Inr [(''fallecido'', PyBool True), (''cedula'', PyStr cedula)], w')"
  | (no) "exec net fresh (check_fallecido uc BS cedula) w =
       (Inr [(''fallecido'', PyBool False), (''cedula'', PyStr cedula)], w')"
  | (err) m where "exec net fresh (check_fallecido uc BS cedula) w = (Inr [(''error'', PyStr m)], w')"
    by blast
  then show ?thesis
  proof cases
    case yes
    from yes route_exec [OF _ yes] show ?thesis by auto
  next
    case no
    from no route_exec [OF _ no] show ?thesis by auto
  next
    case err
    from err route_exec [OF _ err] show ?thesis by auto
  qed
qed

text \<open>The route's answers for the persons \<open>1\<close> and \<open>3\<close>.\<close>

theorem facade_result_shapes_witness:
  "exec mock_net '''' (check_cedula mock_toupper mock_BeautifulSoup (Some ''1'')) world0 =
     (Inr ([(''fallecido'', PyBool True), (''cedula'', PyStr ''1'')], 200),
      snd (exec mock_net '''' (check_fallecido mock_toupper mock_BeautifulSoup ''1'') world0)) \<and>
   exec mock_net '''' (check_cedula mock_toupper mock_BeautifulSoup (Some ''3'')) world0 =
     (Inr ([(''error'', PyStr ''Unknown value for Fallecido/a: MAYBE'')], 500),
      snd (exec mock_net '''' (check_fallecido mock_toupper mock_BeautifulSoup ''3'') world0))"
proof -
  have 1: "fst (exec mock_net '''' (check_fallecido mock_toupper mock_BeautifulSoup ''1'') world0) =
      Inr [(''fallecido'', PyBool True), (''cedula'', PyStr ''1'')]"
    by (simp add: model_defs mock_defs)
  have 3: "fst (exec mock_net '''' (check_fallecido mock_toupper mock_BeautifulSoup ''3'') world0) =
      Inr [(''error'', PyStr ''Unknown value for Fallecido/a: MAYBE'')]"
    by (simp add: model_defs mock_defs)
  from facade_result_shapes [of mock_net "''''" mock_toupper mock_BeautifulSoup "''1''" world0] 1
  have a: "exec mock_net '''' (check_cedula mock_toupper mock_BeautifulSoup (Some ''1'')) world0 =
     (Inr ([(''fallecido'', PyBool True), (''cedula'', PyStr ''1'')], 200),
      snd (exec mock_net '''' (check_fallecido mock_toupper mock_BeautifulSoup ''1'') world0))"
    by auto
  from facade_result_shapes [of mock_net "''''" mock_toupper mock_BeautifulSoup "''3''" world0] 3
  have b: "exec mock_net '''' (check_cedula mock_toupper mock_BeautifulSoup (Some ''3'')) world0 =
     (Inr ([(''error'', PyStr ''Unknown value for Fallecido/a: MAYBE'')], 500),
      snd (exec mock_net '''' (check_fallecido mock_toupper mock_BeautifulSoup ''3'') world0))"
    by auto
  from a b show ?thesis by simp
qed

end
